theory Spec2Isabelle
  imports Main "HOL-Library.Log_Nat" "HOL-Library.Multiset"
begin

section \<open>Numbers of the source language\<close>

text \<open>
  The source is TypeScript: every number is an IEEE 754 double. Integers below \<open>2^53\<close> are
  exact, so counters, roll values and timestamps are modelled as \<open>int\<close>. The one place
  where a fraction is computed is \<open>endRound\<close> (\<open>length * (pct / 100)\<close>) and the draw of
  \<open>processUserRoll\<close> (\<open>Math.random() * maxRoll\<close>); there each operation rounds its exact
  result to the nearest double, ties to even, which \<open>fl64\<close> does on rationals (53-bit
  significand, gradual underflow at exponent \<open>-1074\<close>; overflow to infinity is outside
  the range of every argument used below).
\<close>

definition pow2 :: "int \<Rightarrow> rat" where
  "pow2 e = (if 0 \<le> e then 2 ^ nat e else 1 / 2 ^ nat (- e))"

definition ilog2 :: "rat \<Rightarrow> int" where
  "ilog2 q = (let (a, b) = quotient_of q; k = bitlen a - bitlen b
              in if pow2 k \<le> q then k else k - 1)"

definition round_half_even :: "rat \<Rightarrow> int" where
  "round_half_even q =
     (let f = \<lfloor>q\<rfloor>; d = q - of_int f
      in if d < 1 / 2 then f else if 1 / 2 < d then f + 1 else if even f then f else f + 1)"

definition fl64 :: "rat \<Rightarrow> rat" where
  "fl64 q = (if q = 0 then 0
             else let e = max (ilog2 \<bar>q\<bar> - 52) (- 1074)
                  in of_int (round_half_even (q / pow2 e)) * pow2 e)"

text \<open>Template literals print an integer in decimal.\<close>

fun string_of_nat :: "nat \<Rightarrow> string" where
  "string_of_nat n =
     (if n < 10 then [char_of (48 + n)]
      else string_of_nat (n div 10) @ [char_of (48 + n mod 10)])"

declare string_of_nat.simps [simp del]

definition string_of_int :: "int \<Rightarrow> string" where
  "string_of_int i = (if i < 0 then CHR ''-'' # string_of_nat (nat (- i)) else string_of_nat (nat i))"

text \<open>\<open>xs[i]\<close>, \<open>xs.slice(start)\<close> and \<open>xs.slice(0, end)\<close> of JavaScript arrays: an index out
  of range reads \<open>undefined\<close>, a negative slice bound counts from the end, and both bounds
  are clamped to the array.\<close>

definition at_index :: "'a list \<Rightarrow> int \<Rightarrow> 'a option" where
  "at_index xs i = (if 0 \<le> i \<and> i < int (length xs) then Some (xs ! nat i) else None)"

definition slice_bound :: "'a list \<Rightarrow> int \<Rightarrow> nat" where
  "slice_bound xs k =
     (let n = int (length xs) in nat (if k < 0 then max (n + k) 0 else min k n))"

definition slice_from :: "'a list \<Rightarrow> int \<Rightarrow> 'a list" where
  "slice_from xs start = drop (slice_bound xs start) xs"

definition slice_to :: "'a list \<Rightarrow> int \<Rightarrow> 'a list" where
  "slice_to xs end = take (slice_bound xs end) xs"

text \<open>\<open>v || d\<close> on an optional number: \<open>undefined\<close> and \<open>0\<close> are falsy.\<close>

definition or_number :: "int option \<Rightarrow> int \<Rightarrow> int" where
  "or_number v d = (case v of None \<Rightarrow> d | Some x \<Rightarrow> if x = 0 then d else x)"

section \<open>Data model (types/Tournament.ts, services/gameStateManager.ts)\<close>

datatype TournamentStatus = SETUP | ACTIVE | ROUND_ENDING | COMPLETED | CANCELLED

record TournamentConfig =
  idT :: string
  name :: string
  maxRoll :: int
  rollLimit :: int
  deadline :: int
  currentRound :: int
  status :: TournamentStatus
  messageId :: "string option"
  channelId :: string
  createdAt :: int
  updatedAt :: int

record UserRoll =
  userId :: string
  username :: string
  roll :: int
  timestamp :: int
  rollsUsed :: int

record RoundData =
  roundNumber :: int
  startTime :: int
  endTime :: "int option"
  participants :: "string list"
  eliminated :: "string list"
  cutoffRoll :: "int option"

record TournamentStats =
  totalParticipants :: int
  activeParticipants :: int
  eliminatedParticipants :: int
  totalRolls :: int
  averageRoll :: rat
  highestRoll :: "UserRoll option"
  lowestRoll :: "UserRoll option"

datatype GameStatus = Pending | Active | Completed | Cancelled

datatype jvalue = JString string | JNumber int | JBoolean bool

record GameState =
  gameId :: string
  typeG :: string
  statusG :: GameStatus
  players :: "string list"
  startedAt :: "string option"
  endedAt :: "string option"
  dataG :: "(string \<times> jvalue) list"

text \<open>
  The documents this program serialises. A stored string is either the JSON text of a
  document (\<open>JSON.stringify\<close>), or text that \<open>JSON.parse\<close> rejects with a SyntaxError.
  \<open>JSON.parse(s) as T\<close> is an unchecked cast: it returns whatever document the text
  holds.
\<close>

datatype doc =
    DConfig TournamentConfig
  | DRoll UserRoll
  | DRound RoundData
  | DStats TournamentStats
  | DGame GameState
  | DEvent "(string \<times> jvalue) list"

datatype jtext = JSON doc | Raw string

datatype fault =
    ClientUnavailable
  | ConnectionError
  | WrongType
  | SyntaxError
  | TypeError
  | IOError
  | Untyped

text \<open>
  \<open>ClientUnavailable\<close> is the Error thrown by \<open>requireRedisClient\<close>; \<open>ConnectionError\<close> and
  \<open>WrongType\<close> are rejections of a command by the key-value client (connection lost, and
  the WRONGTYPE reply to a command on a key of the other kind); \<open>SyntaxError\<close> comes from
  \<open>JSON.parse\<close>; \<open>TypeError\<close> from reading a property of \<open>undefined\<close>; \<open>IOError\<close> from
  the file system. \<open>Untyped\<close> marks
  the border of this model: an engine function met a stored document that is not of the
  type its cast declares, where the source would compute on with \<open>undefined\<close> fields.
\<close>

definition JSON_stringify :: "doc \<Rightarrow> jtext" where
  "JSON_stringify d = JSON d"

definition JSON_parse :: "jtext \<Rightarrow> fault + doc" where
  "JSON_parse t = (case t of JSON d \<Rightarrow> Inr d | Raw s \<Rightarrow> Inl SyntaxError)"

text \<open>\<open>!data\<close> on a string: only the empty string is falsy.\<close>

definition falsy :: "jtext \<Rightarrow> bool" where
  "falsy t = (t = Raw [])"

section \<open>Control flow: exceptions as values\<close>

definition bindF :: "fault + 'a \<Rightarrow> ('a \<Rightarrow> fault + 'b) \<Rightarrow> fault + 'b" where
  "bindF m f = (case m of Inl e \<Rightarrow> Inl e | Inr v \<Rightarrow> f v)"

definition try_catch :: "fault + 'a \<Rightarrow> (fault \<Rightarrow> fault + 'a) \<Rightarrow> fault + 'a" where
  "try_catch body handler = (case body of Inl e \<Rightarrow> handler e | Inr v \<Rightarrow> Inr v)"

fun mapF :: "('a \<Rightarrow> fault + 'b) \<Rightarrow> 'a list \<Rightarrow> fault + 'b list" where
  "mapF f [] = Inr []"
| "mapF f (x # xs) = bindF (f x) (\<lambda>y. bindF (mapF f xs) (\<lambda>ys. Inr (y # ys)))"

section \<open>The key-value client (core/redis.ts, ioredis)\<close>

text \<open>
  One key space; a key holds a string or a hash. \<open>db\<close> is kept as an association list
  with distinct keys so that \<open>KEYS\<close> and \<open>HGETALL\<close> have a scan order. \<open>enabled\<close> says
  that \<open>getRedisClient()\<close> returns a client; \<open>online\<close> that the client's commands are
  answered (when it is false every command rejects). Expiry (\<open>SETEX\<close>) is not
  modelled: the time to live of a key is dropped.
\<close>

datatype entry = Str jtext | Hash "(string \<times> jtext) list"

record redis =
  enabled :: bool
  online :: bool
  db :: "(string \<times> entry) list"

definition upsert :: "'k \<Rightarrow> 'v \<Rightarrow> ('k \<times> 'v) list \<Rightarrow> ('k \<times> 'v) list" where
  "upsert k v kvs =
     (if k \<in> fst ` set kvs then map (\<lambda>(k', v'). if k' = k then (k', v) else (k', v')) kvs
      else kvs @ [(k, v)])"

definition remove_key :: "'k \<Rightarrow> ('k \<times> 'v) list \<Rightarrow> ('k \<times> 'v) list" where
  "remove_key k kvs = filter (\<lambda>(k', v'). k' \<noteq> k) kvs"

definition client_get :: "redis \<Rightarrow> string \<Rightarrow> fault + jtext option" where
  "client_get r key =
     (if \<not> online r then Inl ConnectionError
      else case map_of (db r) key of
             None \<Rightarrow> Inr None
           | Some (Str t) \<Rightarrow> Inr (Some t)
           | Some (Hash h) \<Rightarrow> Inl WrongType)"

definition client_set :: "redis \<Rightarrow> string \<Rightarrow> jtext \<Rightarrow> fault + redis" where
  "client_set r key v =
     (if \<not> online r then Inl ConnectionError
      else Inr (r\<lparr>db := upsert key (Str v) (db r)\<rparr>))"

definition client_setex :: "redis \<Rightarrow> string \<Rightarrow> int \<Rightarrow> jtext \<Rightarrow> fault + redis" where
  "client_setex r key ttl v = client_set r key v"

definition client_del :: "redis \<Rightarrow> string \<Rightarrow> fault + redis" where
  "client_del r key =
     (if \<not> online r then Inl ConnectionError
      else Inr (r\<lparr>db := remove_key key (db r)\<rparr>))"

definition client_hset :: "redis \<Rightarrow> string \<Rightarrow> string \<Rightarrow> jtext \<Rightarrow> fault + redis" where
  "client_hset r key field v =
     (if \<not> online r then Inl ConnectionError
      else case map_of (db r) key of
             None \<Rightarrow> Inr (r\<lparr>db := upsert key (Hash [(field, v)]) (db r)\<rparr>)
           | Some (Hash h) \<Rightarrow> Inr (r\<lparr>db := upsert key (Hash (upsert field v h)) (db r)\<rparr>)
           | Some (Str t) \<Rightarrow> Inl WrongType)"

definition client_hget :: "redis \<Rightarrow> string \<Rightarrow> string \<Rightarrow> fault + jtext option" where
  "client_hget r key field =
     (if \<not> online r then Inl ConnectionError
      else case map_of (db r) key of
             None \<Rightarrow> Inr None
           | Some (Hash h) \<Rightarrow> Inr (map_of h field)
           | Some (Str t) \<Rightarrow> Inl WrongType)"

definition client_hgetall :: "redis \<Rightarrow> string \<Rightarrow> fault + (string \<times> jtext) list" where
  "client_hgetall r key =
     (if \<not> online r then Inl ConnectionError
      else case map_of (db r) key of
             None \<Rightarrow> Inr []
           | Some (Hash h) \<Rightarrow> Inr h
           | Some (Str t) \<Rightarrow> Inl WrongType)"

text \<open>\<open>KEYS prefix*\<close>: the keys that start with the prefix, in scan order.\<close>

definition starts_with :: "string \<Rightarrow> string \<Rightarrow> bool" where
  "starts_with p s = (take (length p) s = p)"

definition client_keys :: "redis \<Rightarrow> string \<Rightarrow> fault + string list" where
  "client_keys r p =
     (if \<not> online r then Inl ConnectionError
      else Inr (filter (starts_with p) (map fst (db r))))"

definition requireRedisClient :: "redis \<Rightarrow> fault + redis" where
  "requireRedisClient r = (if enabled r then Inr r else Inl ClientUnavailable)"

section \<open>Tournament store (features/tournament/storage.ts)\<close>

definition TOURNAMENT_PREFIX :: string where
  "TOURNAMENT_PREFIX = ''tournament:''"

definition TOURNAMENT_ROLLS_PREFIX :: string where
  "TOURNAMENT_ROLLS_PREFIX = ''tournament:rolls:''"

definition TOURNAMENT_ROUND_PREFIX :: string where
  "TOURNAMENT_ROUND_PREFIX = ''tournament:round:''"

definition TOURNAMENT_STATS_PREFIX :: string where
  "TOURNAMENT_STATS_PREFIX = ''tournament:stats:''"

text \<open>
  Every operation first calls \<open>requireRedisClient\<close>, outside its \<open>try\<close>; the body runs
  inside \<open>try\<close>. The \<open>catch\<close> of a save or delete logs and rethrows; the \<open>catch\<close> of a
  get or list logs and returns \<open>null\<close> or \<open>[]\<close>. The log sink is a collaborator and is
  not modelled.
\<close>

definition saveTournamentConfig :: "redis \<Rightarrow> TournamentConfig \<Rightarrow> fault + redis" where
  "saveTournamentConfig r config =
     bindF (requireRedisClient r) (\<lambda>client.
       try_catch (client_set client (TOURNAMENT_PREFIX @ idT config) (JSON_stringify (DConfig config)))
         (\<lambda>error. Inl error))"

text \<open>The body shared by the four single-document getters: \<open>get\<close>, \<open>if (!data) return null\<close>,
  \<open>JSON.parse\<close>.\<close>

definition parse_or_null :: "jtext option \<Rightarrow> fault + doc option" where
  "parse_or_null data =
     (case data of
        None \<Rightarrow> Inr None
      | Some t \<Rightarrow> if falsy t then Inr None else bindF (JSON_parse t) (\<lambda>d. Inr (Some d)))"

definition getTournamentConfig :: "redis \<Rightarrow> string \<Rightarrow> fault + doc option" where
  "getTournamentConfig r tournamentId =
     bindF (requireRedisClient r) (\<lambda>client.
       try_catch (bindF (client_get client (TOURNAMENT_PREFIX @ tournamentId)) parse_or_null)
         (\<lambda>error. Inr None))"

definition deleteTournamentConfig :: "redis \<Rightarrow> string \<Rightarrow> fault + redis" where
  "deleteTournamentConfig r tournamentId =
     bindF (requireRedisClient r) (\<lambda>client.
       try_catch (client_del client (TOURNAMENT_PREFIX @ tournamentId))
         (\<lambda>error. Inl error))"

definition saveUserRoll :: "redis \<Rightarrow> string \<Rightarrow> string \<Rightarrow> UserRoll \<Rightarrow> fault + redis" where
  "saveUserRoll r tournamentId uid rl =
     bindF (requireRedisClient r) (\<lambda>client.
       try_catch (client_hset client (TOURNAMENT_ROLLS_PREFIX @ tournamentId) uid (JSON_stringify (DRoll rl)))
         (\<lambda>error. Inl error))"

definition getUserRoll :: "redis \<Rightarrow> string \<Rightarrow> string \<Rightarrow> fault + doc option" where
  "getUserRoll r tournamentId uid =
     bindF (requireRedisClient r) (\<lambda>client.
       try_catch (bindF (client_hget client (TOURNAMENT_ROLLS_PREFIX @ tournamentId) uid) parse_or_null)
         (\<lambda>error. Inr None))"

definition getAllUserRolls :: "redis \<Rightarrow> string \<Rightarrow> fault + doc list" where
  "getAllUserRolls r tournamentId =
     bindF (requireRedisClient r) (\<lambda>client.
       try_catch
         (bindF (client_hgetall client (TOURNAMENT_ROLLS_PREFIX @ tournamentId)) (\<lambda>data.
            mapF JSON_parse (map snd data)))
         (\<lambda>error. Inr []))"

definition deleteAllUserRolls :: "redis \<Rightarrow> string \<Rightarrow> fault + redis" where
  "deleteAllUserRolls r tournamentId =
     bindF (requireRedisClient r) (\<lambda>client.
       try_catch (client_del client (TOURNAMENT_ROLLS_PREFIX @ tournamentId))
         (\<lambda>error. Inl error))"

definition round_key :: "string \<Rightarrow> int \<Rightarrow> string" where
  "round_key tournamentId n = TOURNAMENT_ROUND_PREFIX @ tournamentId @ '':'' @ string_of_int n"

definition saveRoundData :: "redis \<Rightarrow> string \<Rightarrow> int \<Rightarrow> RoundData \<Rightarrow> fault + redis" where
  "saveRoundData r tournamentId n rd =
     bindF (requireRedisClient r) (\<lambda>client.
       try_catch (client_set client (round_key tournamentId n) (JSON_stringify (DRound rd)))
         (\<lambda>error. Inl error))"

definition getRoundData :: "redis \<Rightarrow> string \<Rightarrow> int \<Rightarrow> fault + doc option" where
  "getRoundData r tournamentId n =
     bindF (requireRedisClient r) (\<lambda>client.
       try_catch (bindF (client_get client (round_key tournamentId n)) parse_or_null)
         (\<lambda>error. Inr None))"

text \<open>The loop of \<open>getAllRoundData\<close> and \<open>listActiveTournaments\<close>: for each key, \<open>get\<close>;
  a truthy value is parsed and pushed. A rejected \<open>get\<close> or a SyntaxError leaves the loop.\<close>

fun get_each :: "redis \<Rightarrow> string list \<Rightarrow> fault + doc list" where
  "get_each client [] = Inr []"
| "get_each client (key # keys) =
     bindF (client_get client key) (\<lambda>data.
       case data of
         None \<Rightarrow> get_each client keys
       | Some t \<Rightarrow>
           if falsy t then get_each client keys
           else bindF (JSON_parse t) (\<lambda>d. bindF (get_each client keys) (\<lambda>ds. Inr (d # ds))))"

definition saveTournamentStats :: "redis \<Rightarrow> string \<Rightarrow> TournamentStats \<Rightarrow> fault + redis" where
  "saveTournamentStats r tournamentId stats =
     bindF (requireRedisClient r) (\<lambda>client.
       try_catch (client_set client (TOURNAMENT_STATS_PREFIX @ tournamentId) (JSON_stringify (DStats stats)))
         (\<lambda>error. Inl error))"

definition getTournamentStats :: "redis \<Rightarrow> string \<Rightarrow> fault + doc option" where
  "getTournamentStats r tournamentId =
     bindF (requireRedisClient r) (\<lambda>client.
       try_catch (bindF (client_get client (TOURNAMENT_STATS_PREFIX @ tournamentId)) parse_or_null)
         (\<lambda>error. Inr None))"

definition listActiveTournaments :: "redis \<Rightarrow> fault + doc list" where
  "listActiveTournaments r =
     bindF (requireRedisClient r) (\<lambda>client.
       try_catch (bindF (client_keys client TOURNAMENT_PREFIX) (get_each client))
         (\<lambda>error. Inr []))"

section \<open>Tournament engine (features/tournament/game.ts)\<close>

text \<open>
  Every function takes the store and returns it updated. \<open>Date.now()\<close> is the argument
  \<open>now\<close> (the reads of one call are taken at the same instant) and \<open>Math.random()\<close> is the
  argument \<open>u\<close>, a double in \<open>[0, 1)\<close>. Within one call the client does not change between
  answering and rejecting, so a fault is never preceded by a write of the same call.
\<close>

definition DEFAULT_ELIMINATION_PERCENTAGE :: rat where
  "DEFAULT_ELIMINATION_PERCENTAGE = 50"

datatype 'a outcome = Outcome (success: bool) (message: string) (payload: "'a option")

definition createTournament ::
  "redis \<Rightarrow> int \<Rightarrow> string \<Rightarrow> int \<Rightarrow> int \<Rightarrow> int \<Rightarrow> string \<Rightarrow> fault + (TournamentConfig \<times> redis)" where
  "createTournament r now nm maxR limit deadlineHours channel =
     (let config = \<lparr> idT = ''tournament-'' @ string_of_int now, name = nm, maxRoll = maxR,
                      rollLimit = limit, deadline = now + deadlineHours * 60 * 60 * 1000,
                      currentRound = 1, status = ACTIVE, messageId = None, channelId = channel,
                      createdAt = now, updatedAt = now \<rparr>
      in bindF (saveTournamentConfig r config) (\<lambda>r1.
         bindF (saveRoundData r1 (idT config) 1
                  \<lparr> roundNumber = 1, startTime = now, endTime = None, participants = [],
                    eliminated = [], cutoffRoll = None \<rparr>) (\<lambda>r2.
         Inr (config, r2))))"

definition rollValue_of :: "rat \<Rightarrow> int \<Rightarrow> int" where
  "rollValue_of u maxR = \<lfloor>fl64 (u * of_int maxR)\<rfloor> + 1"

text \<open>The part of \<open>processUserRoll\<close> after the tournament and the existing roll are read.\<close>

definition rollWith ::
  "redis \<Rightarrow> int \<Rightarrow> rat \<Rightarrow> TournamentConfig \<Rightarrow> string \<Rightarrow> string \<Rightarrow> string \<Rightarrow> UserRoll option
     \<Rightarrow> fault + (UserRoll outcome \<times> redis)" where
  "rollWith r now u config tournamentId uid uname existing =
     (if (case existing of None \<Rightarrow> False | Some existingRoll \<Rightarrow> rollsUsed existingRoll \<ge> rollLimit config)
      then Inr (Outcome False (''You have used all '' @ string_of_int (rollLimit config) @ '' rolls'') None, r)
      else
        let rollValue = rollValue_of u (maxRoll config);
            used = (case existing of None \<Rightarrow> 1 | Some existingRoll \<Rightarrow> rollsUsed existingRoll + 1)
        in case (case existing of None \<Rightarrow> None
                 | Some existingRoll \<Rightarrow> if rollValue > roll existingRoll then None else Some existingRoll) of
             None \<Rightarrow>
               (let rl = \<lparr> userId = uid, username = uname, roll = rollValue, timestamp = now,
                            rollsUsed = used \<rparr>
                in bindF (saveUserRoll r tournamentId uid rl) (\<lambda>r1.
                   Inr (Outcome True
                          (''Rolled '' @ string_of_int rollValue @ ''! ('' @ string_of_int used @ ''/''
                             @ string_of_int (rollLimit config) @ '' rolls used)'')
                          (Some rl), r1)))
           | Some existingRoll \<Rightarrow>
               (let updatedRoll = existingRoll\<lparr>rollsUsed := used\<rparr>
                in bindF (saveUserRoll r tournamentId uid updatedRoll) (\<lambda>r1.
                   Inr (Outcome True
                          (''Rolled '' @ string_of_int rollValue @ '', but your previous roll of ''
                             @ string_of_int (roll existingRoll) @ '' was better. (''
                             @ string_of_int used @ ''/'' @ string_of_int (rollLimit config)
                             @ '' rolls used)'')
                          (Some existingRoll), r1))))"

definition processUserRoll ::
  "redis \<Rightarrow> int \<Rightarrow> rat \<Rightarrow> string \<Rightarrow> string \<Rightarrow> string \<Rightarrow> fault + (UserRoll outcome \<times> redis)" where
  "processUserRoll r now u tournamentId uid uname =
     bindF (getTournamentConfig r tournamentId) (\<lambda>found.
       case found of
         None \<Rightarrow> Inr (Outcome False ''Tournament not found'' None, r)
       | Some (DConfig config) \<Rightarrow>
           if status config \<noteq> ACTIVE then Inr (Outcome False ''Tournament is not active'' None, r)
           else if now > deadline config
           then Inr (Outcome False ''Tournament deadline has passed'' None, r)
           else bindF (getUserRoll r tournamentId uid) (\<lambda>existing.
                  case existing of
                    None \<Rightarrow> rollWith r now u config tournamentId uid uname None
                  | Some (DRoll existingRoll) \<Rightarrow>
                      rollWith r now u config tournamentId uid uname (Some existingRoll)
                  | Some other \<Rightarrow> Inl Untyped)
       | Some other \<Rightarrow> Inr (Outcome False ''Tournament is not active'' None, r))"

text \<open>A document of another kind under the tournament's key has no \<open>status\<close> field:
  \<open>undefined !== 'active'\<close>, the last case above.\<close>

definition eliminateCount_of :: "nat \<Rightarrow> rat \<Rightarrow> int" where
  "eliminateCount_of n pct = \<lfloor>fl64 (of_nat n * fl64 (pct / 100))\<rfloor>"

fun rolls_of :: "doc list \<Rightarrow> UserRoll list option" where
  "rolls_of [] = Some []"
| "rolls_of (DRoll x # ds) = map_option ((#) x) (rolls_of ds)"
| "rolls_of (other # ds) = None"

definition sortDescending :: "UserRoll list \<Rightarrow> UserRoll list" where
  "sortDescending allRolls = sort_key (\<lambda>x. - roll x) allRolls"

text \<open>The part of \<open>endRound\<close> after the rolls are read and found non-empty.\<close>

definition closeRound ::
  "redis \<Rightarrow> int \<Rightarrow> TournamentConfig \<Rightarrow> string \<Rightarrow> rat \<Rightarrow> UserRoll list
     \<Rightarrow> fault + (string list outcome \<times> redis)" where
  "closeRound r now config tournamentId pct allRolls =
     (let sortedRolls = sortDescending allRolls;
          eliminateCount = eliminateCount_of (length sortedRolls) pct;
          cutoffIndex = max 0 (int (length sortedRolls) - eliminateCount - 1);
          cutoff = or_number (map_option roll (at_index sortedRolls cutoffIndex)) 0;
          elim = map userId (slice_from sortedRolls (int (length sortedRolls) - eliminateCount))
      in bindF (getRoundData r tournamentId (currentRound config)) (\<lambda>previous.
         let roundData =
               \<lparr> roundNumber = currentRound config,
                 startTime = or_number (case previous of Some (DRound rd) \<Rightarrow> Some (startTime rd)
                                        | _ \<Rightarrow> None) now,
                 endTime = Some now, participants = map userId sortedRolls,
                 eliminated = elim, cutoffRoll = Some cutoff \<rparr>
         in bindF (saveRoundData r tournamentId (currentRound config) roundData) (\<lambda>r1.
            bindF (deleteAllUserRolls r1 tournamentId) (\<lambda>r2.
            let remainingPlayers = int (length sortedRolls) - eliminateCount
            in if remainingPlayers \<le> 1
               then bindF (saveTournamentConfig r2 (config\<lparr>status := COMPLETED, updatedAt := now\<rparr>)) (\<lambda>r3.
                    case at_index sortedRolls 0 of
                      None \<Rightarrow> Inl TypeError
                    | Some first \<Rightarrow>
                        Inr (Outcome True (''Tournament complete! Winner: '' @ username first)
                               (Some elim), r3))
               else
                 let config' = config\<lparr>currentRound := currentRound config + 1, updatedAt := now\<rparr>
                 in bindF (saveTournamentConfig r2 config') (\<lambda>r3.
                    bindF (saveRoundData r3 tournamentId (currentRound config')
                             \<lparr> roundNumber = currentRound config', startTime = now, endTime = None,
                               participants = map userId (slice_to sortedRolls remainingPlayers),
                               eliminated = [], cutoffRoll = None \<rparr>) (\<lambda>r4.
                    Inr (Outcome True
                           (''Round '' @ string_of_int (currentRound config' - 1) @ '' ended. ''
                              @ string_of_int eliminateCount @ '' players eliminated. Starting round ''
                              @ string_of_int (currentRound config') @ ''!'')
                           (Some elim), r4)))))))"

definition endRound ::
  "redis \<Rightarrow> int \<Rightarrow> string \<Rightarrow> rat \<Rightarrow> fault + (string list outcome \<times> redis)" where
  "endRound r now tournamentId eliminationPercentage =
     bindF (getTournamentConfig r tournamentId) (\<lambda>found.
       case found of
         None \<Rightarrow> Inr (Outcome False ''Tournament not found'' None, r)
       | Some (DConfig config) \<Rightarrow>
           if status config \<noteq> ACTIVE then Inr (Outcome False ''Tournament is not active'' None, r)
           else bindF (getAllUserRolls r tournamentId) (\<lambda>docs.
                  if length docs = 0
                  then Inr (Outcome False ''No participants in this round'' None, r)
                  else case rolls_of docs of
                         None \<Rightarrow> Inl Untyped
                       | Some allRolls \<Rightarrow>
                           closeRound r now config tournamentId eliminationPercentage allRolls)
       | Some other \<Rightarrow> Inr (Outcome False ''Tournament is not active'' None, r))"

definition cancelTournament :: "redis \<Rightarrow> int \<Rightarrow> string \<Rightarrow> fault + (bool \<times> redis)" where
  "cancelTournament r now tournamentId =
     bindF (getTournamentConfig r tournamentId) (\<lambda>found.
       case found of
         None \<Rightarrow> Inr (False, r)
       | Some (DConfig config) \<Rightarrow>
           bindF (saveTournamentConfig r (config\<lparr>status := CANCELLED, updatedAt := now\<rparr>)) (\<lambda>r1.
           Inr (True, r1))
       | Some other \<Rightarrow> Inl Untyped)"

section \<open>Durable file store (core/disk.ts) and cache helpers (core/redis.ts)\<close>

text \<open>
  Files are kept by their path relative to the disk root; a file is the list of the
  chunks written to it (\<open>writeFile\<close> replaces them, \<open>appendFile\<close> adds one).
  \<open>writable\<close> says that the file system accepts writes; directories are created on
  demand and are not modelled.
\<close>

record disk =
  writable :: bool
  files :: "(string \<times> jtext list) list"

definition fs_writeFile :: "disk \<Rightarrow> string \<Rightarrow> jtext \<Rightarrow> fault + disk" where
  "fs_writeFile d path content =
     (if \<not> writable d then Inl IOError else Inr (d\<lparr>files := upsert path [content] (files d)\<rparr>))"

definition fs_appendFile :: "disk \<Rightarrow> string \<Rightarrow> jtext \<Rightarrow> fault + disk" where
  "fs_appendFile d path content =
     (if \<not> writable d then Inl IOError
      else Inr (d\<lparr>files := upsert path
                  ((case map_of (files d) path of None \<Rightarrow> [] | Some old \<Rightarrow> old) @ [content]) (files d)\<rparr>))"

definition writeDisk :: "disk \<Rightarrow> string \<Rightarrow> jtext \<Rightarrow> fault + (bool \<times> disk)" where
  "writeDisk d relativePath content =
     try_catch (bindF (fs_writeFile d relativePath content) (\<lambda>d1. Inr (True, d1)))
       (\<lambda>error. Inr (False, d))"

definition appendDisk :: "disk \<Rightarrow> string \<Rightarrow> jtext \<Rightarrow> fault + (bool \<times> disk)" where
  "appendDisk d relativePath content =
     try_catch (bindF (fs_appendFile d relativePath content) (\<lambda>d1. Inr (True, d1)))
       (\<lambda>error. Inr (False, d))"

text \<open>\<open>if (ttlSeconds)\<close>: \<open>undefined\<close> and \<open>0\<close> are falsy.\<close>

definition setRedis :: "redis \<Rightarrow> string \<Rightarrow> jtext \<Rightarrow> int option \<Rightarrow> fault + (bool \<times> redis)" where
  "setRedis r key v ttlSeconds =
     (if \<not> enabled r then Inr (False, r)
      else try_catch
             (bindF (case ttlSeconds of
                       None \<Rightarrow> client_set r key v
                     | Some t \<Rightarrow> if t \<noteq> 0 then client_setex r key t v else client_set r key v)
                (\<lambda>r1. Inr (True, r1)))
             (\<lambda>error. Inr (False, r)))"

section \<open>Storage facade (services/storage.ts)\<close>

record StorageOptions =
  ttl :: "int option"
  persistToDisk :: "bool option"

record tiers =
  cache :: redis
  durable :: disk

definition storeData :: "tiers \<Rightarrow> string \<Rightarrow> jtext \<Rightarrow> StorageOptions \<Rightarrow> fault + (bool \<times> tiers)" where
  "storeData s key v options =
     (let persist = (case persistToDisk options of None \<Rightarrow> False | Some b \<Rightarrow> b)
      in bindF (setRedis (cache s) key v (ttl options)) (\<lambda>(redisSuccess, r1).
         if persist \<or> \<not> redisSuccess
         then bindF (writeDisk (durable s) (''cache/'' @ key @ ''.txt'') v) (\<lambda>(diskSuccess, d1).
                if \<not> redisSuccess \<and> \<not> diskSuccess
                then Inr (False, \<lparr>cache = r1, durable = d1\<rparr>)
                else Inr (True, \<lparr>cache = r1, durable = d1\<rparr>))
         else Inr (redisSuccess, \<lparr>cache = r1, durable = durable s\<rparr>)))"

definition storeJSON :: "tiers \<Rightarrow> string \<Rightarrow> doc \<Rightarrow> StorageOptions \<Rightarrow> fault + (bool \<times> tiers)" where
  "storeJSON s key d options =
     try_catch (storeData s key (JSON_stringify d) options) (\<lambda>error. Inr (False, s))"

definition game_key :: "string \<Rightarrow> string" where
  "game_key gid = ''game:'' @ gid @ '':state''"

definition storeGameState :: "tiers \<Rightarrow> string \<Rightarrow> GameState \<Rightarrow> fault + (bool \<times> tiers)" where
  "storeGameState s gid state =
     storeJSON s (game_key gid) (DGame state) \<lparr>ttl = Some 86400, persistToDisk = Some True\<rparr>"

text \<open>\<open>logEvent\<close>: \<open>isoNow\<close> is \<open>new Date().toISOString()\<close>; the log file is named by its date
  part. \<open>{ timestamp, ...event }\<close> puts the timestamp first and lets a key of the event
  override it.\<close>

definition logEvent :: "tiers \<Rightarrow> string \<Rightarrow> string \<Rightarrow> (string \<times> jvalue) list \<Rightarrow> fault + (bool \<times> tiers)" where
  "logEvent s isoNow logType event =
     (let logLine = JSON_stringify (DEvent (foldl (\<lambda>obj (k, v). upsert k v obj)
                                       [(''timestamp'', JString isoNow)] event));
          logPath = ''logs/'' @ logType @ ''/'' @ takeWhile (\<lambda>c. c \<noteq> CHR ''T'') isoNow @ ''.log''
      in bindF (appendDisk (durable s) logPath logLine) (\<lambda>(ok, d1).
         Inr (ok, s\<lparr>durable := d1\<rparr>)))"

section \<open>Game-state manager (services/gameStateManager.ts)\<close>

definition createGame ::
  "tiers \<Rightarrow> string \<Rightarrow> string \<Rightarrow> string \<Rightarrow> (string \<times> jvalue) list \<Rightarrow> fault + (bool \<times> tiers)" where
  "createGame s isoNow gid ty initialData =
     (let state = \<lparr> gameId = gid, typeG = ty, statusG = Pending, players = [],
                     startedAt = None, endedAt = None, dataG = initialData \<rparr>
      in bindF (storeGameState s gid state) (\<lambda>(ok, s1).
         if ok
         then bindF (logEvent s1 isoNow ''game''
                       [(''action'', JString ''create''), (''gameId'', JString gid),
                        (''type'', JString ty)]) (\<lambda>(logged, s2).
              Inr (ok, s2))
         else Inr (ok, s1)))"

section \<open>Observations used by the properties\<close>

text \<open>The roll document stored for a user, read off the store itself.\<close>

definition storedRoll :: "redis \<Rightarrow> string \<Rightarrow> string \<Rightarrow> UserRoll option" where
  "storedRoll r tournamentId uid =
     (case map_of (db r) (TOURNAMENT_ROLLS_PREFIX @ tournamentId) of
        Some (Hash h) \<Rightarrow> (case map_of h uid of Some (JSON (DRoll x)) \<Rightarrow> Some x | _ \<Rightarrow> None)
      | _ \<Rightarrow> None)"

text \<open>The configuration stored for a tournament.\<close>

definition storedConfig :: "redis \<Rightarrow> string \<Rightarrow> TournamentConfig option" where
  "storedConfig r tournamentId =
     (case map_of (db r) (TOURNAMENT_PREFIX @ tournamentId) of
        Some (Str (JSON (DConfig c))) \<Rightarrow> Some c
      | _ \<Rightarrow> None)"

text \<open>A sequence of \<open>processUserRoll\<close> calls on one tournament, each with its time, its
  random draw, the user and the display name; a call that raises leaves the store as
  it was.\<close>

fun rollMany :: "redis \<Rightarrow> string \<Rightarrow> (int \<times> rat \<times> string \<times> string) list \<Rightarrow> redis" where
  "rollMany r tournamentId [] = r"
| "rollMany r tournamentId ((now, u, uid, uname) # calls) =
     rollMany (case processUserRoll r now u tournamentId uid uname of
                 Inl e \<Rightarrow> r
               | Inr (out, r1) \<Rightarrow> r1) tournamentId calls"

text \<open>The store after the writes of a closed round.\<close>

definition closedDb ::
  "redis \<Rightarrow> TournamentConfig \<Rightarrow> string \<Rightarrow> RoundData \<Rightarrow> (string \<times> entry) list" where
  "closedDb r config tid rd =
     remove_key (TOURNAMENT_ROLLS_PREFIX @ tid)
       (upsert (round_key tid (currentRound config)) (Str (JSON (DRound rd))) (db r))"

text \<open>What \<open>closeRound\<close> returns when the client answers every command; \<open>st\<close> is the
  start time recorded for the round.\<close>

definition closedRound ::
  "redis \<Rightarrow> int \<Rightarrow> TournamentConfig \<Rightarrow> string \<Rightarrow> rat \<Rightarrow> UserRoll list \<Rightarrow> int
     \<Rightarrow> fault + (string list outcome \<times> redis)" where
  "closedRound r now config tid pct allRolls st =
    (let sortedRolls = sortDescending allRolls;
         n = int (length sortedRolls);
         e = eliminateCount_of (length sortedRolls) pct;
         elim = map userId (slice_from sortedRolls (n - e));
         rd = \<lparr> roundNumber = currentRound config, startTime = st, endTime = Some now,
                participants = map userId sortedRolls, eliminated = elim,
                cutoffRoll = Some (or_number (map_option roll (at_index sortedRolls (max 0 (n - e - 1)))) 0) \<rparr>;
         config' = config\<lparr>currentRound := currentRound config + 1, updatedAt := now\<rparr>
     in (if n - e \<le> 1
         then Inr (Outcome True (''Tournament complete! Winner: '' @ username (hd sortedRolls)) (Some elim),
                   r\<lparr>db := upsert (TOURNAMENT_PREFIX @ idT config)
                               (Str (JSON (DConfig (config\<lparr>status := COMPLETED, updatedAt := now\<rparr>))))
                               (closedDb r config tid rd)\<rparr>)
         else Inr (Outcome True
                     (''Round '' @ string_of_int (currentRound config' - 1) @ '' ended. ''
                        @ string_of_int e @ '' players eliminated. Starting round ''
                        @ string_of_int (currentRound config') @ ''!'')
                     (Some elim),
                   r\<lparr>db := upsert (round_key tid (currentRound config'))
                               (Str (JSON (DRound \<lparr> roundNumber = currentRound config', startTime = now,
                                          endTime = None,
                                          participants = map userId (slice_to sortedRolls (n - e)),
                                          eliminated = [], cutoffRoll = None \<rparr>)))
                               (upsert (TOURNAMENT_PREFIX @ idT config) (Str (JSON (DConfig config')))
                                  (closedDb r config tid rd))\<rparr>)))"

text \<open>Reading a decimal numeral back.\<close>

definition nat_of_string :: "string \<Rightarrow> nat" where
  "nat_of_string cs = foldl (\<lambda>acc c. 10 * acc + (of_char c - 48)) 0 cs"

section \<open>Scenario data\<close>

text \<open>The store after \<open>createTournament(''Cup'', 100, 1, 24, ''ch'')\<close> at time 1000 on an
  empty store, and after the first roll of user \<open>u1\<close> at time 2000.\<close>

definition cupConfig :: TournamentConfig where
  "cupConfig = \<lparr> idT = ''tournament-1000'', name = ''Cup'', maxRoll = 100, rollLimit = 1,
                  deadline = 86401000, currentRound = 1, status = ACTIVE, messageId = None,
                  channelId = ''ch'', createdAt = 1000, updatedAt = 1000 \<rparr>"

definition cupRound1 :: RoundData where
  "cupRound1 = \<lparr> roundNumber = 1, startTime = 1000, endTime = None, participants = [],
                  eliminated = [], cutoffRoll = None \<rparr>"

definition cupCreated :: redis where
  "cupCreated = \<lparr> enabled = True, online = True,
                   db = [(''tournament:tournament-1000'', Str (JSON (DConfig cupConfig))),
                         (''tournament:round:tournament-1000:1'', Str (JSON (DRound cupRound1)))] \<rparr>"

definition annRoll :: UserRoll where
  "annRoll = \<lparr> userId = ''u1'', username = ''Ann'', roll = 51, timestamp = 2000, rollsUsed = 1 \<rparr>"

definition cupRolled :: redis where
  "cupRolled = \<lparr> enabled = True, online = True,
                  db = [(''tournament:tournament-1000'', Str (JSON (DConfig cupConfig))),
                        (''tournament:round:tournament-1000:1'', Str (JSON (DRound cupRound1))),
                        (''tournament:rolls:tournament-1000'', Hash [(''u1'', JSON (DRoll annRoll))])] \<rparr>"

text \<open>The best-of scenario of the specification: limit 3, upper bound 100; user \<open>u1\<close>
  draws 45 at time 2000, 30 at time 2001 and 80 at time 2002. \<open>bestOfFirst\<close> and
  \<open>bestOfSecond\<close> are the stores after the first and the second call.\<close>

definition bestOfConfig :: TournamentConfig where
  "bestOfConfig = \<lparr> idT = ''t1'', name = ''Cup'', maxRoll = 100, rollLimit = 3,
                     deadline = 100000, currentRound = 1, status = ACTIVE, messageId = None,
                     channelId = ''ch'', createdAt = 1000, updatedAt = 1000 \<rparr>"

definition bestOfStart :: redis where
  "bestOfStart = \<lparr> enabled = True, online = True,
                    db = [(''tournament:t1'', Str (JSON (DConfig bestOfConfig)))] \<rparr>"

definition bestOfCalls :: "(int \<times> rat \<times> string \<times> string) list" where
  "bestOfCalls = [(2000, 57 / 128, ''u1'', ''Ann''), (2001, 19 / 64, ''u1'', ''Ann''),
                  (2002, 51 / 64, ''u1'', ''Ann'')]"

definition bestOfFirst :: redis where
  "bestOfFirst = \<lparr> enabled = True, online = True,
                    db = [(''tournament:t1'', Str (JSON (DConfig bestOfConfig))),
                          (''tournament:rolls:t1'',
                           Hash [(''u1'', JSON (DRoll \<lparr> userId = ''u1'', username = ''Ann'', roll = 45,
                                                       timestamp = 2000, rollsUsed = 1 \<rparr>))])] \<rparr>"

definition bestOfSecond :: redis where
  "bestOfSecond = \<lparr> enabled = True, online = True,
                    db = [(''tournament:t1'', Str (JSON (DConfig bestOfConfig))),
                          (''tournament:rolls:t1'',
                           Hash [(''u1'', JSON (DRoll \<lparr> userId = ''u1'', username = ''Ann'', roll = 45,
                                                       timestamp = 2000, rollsUsed = 2 \<rparr>))])] \<rparr>"

text \<open>A round with ten participants.\<close>

definition tenConfig :: TournamentConfig where
  "tenConfig = \<lparr> idT = ''t10'', name = ''Ten'', maxRoll = 100, rollLimit = 3,
                  deadline = 100000, currentRound = 1, status = ACTIVE, messageId = None,
                  channelId = ''ch'', createdAt = 1000, updatedAt = 1000 \<rparr>"

definition tenRolls :: "UserRoll list" where
  "tenRolls = map (\<lambda>(u, v). \<lparr> userId = u, username = u, roll = v, timestamp = 2000, rollsUsed = 1 \<rparr>)
                [(''u1'', 45), (''u2'', 92), (''u3'', 67), (''u4'', 23), (''u5'', 18),
                 (''u6'', 76), (''u7'', 51), (''u8'', 88), (''u9'', 34), (''u10'', 60)]"

definition tenStore :: redis where
  "tenStore = \<lparr> enabled = True, online = True,
                 db = [(''tournament:t10'', Str (JSON (DConfig tenConfig))),
                       (''tournament:round:t10:1'',
                        Str (JSON (DRound \<lparr> roundNumber = 1, startTime = 1000, endTime = None,
                                            participants = [], eliminated = [], cutoffRoll = None \<rparr>))),
                       (''tournament:rolls:t10'',
                        Hash (map (\<lambda>x. (userId x, JSON (DRoll x))) tenRolls))] \<rparr>"

text \<open>A round with fifty participants, whose rolls are 1 to 50.\<close>

definition fiftyConfig :: TournamentConfig where
  "fiftyConfig = \<lparr> idT = ''t50'', name = ''Fifty'', maxRoll = 100, rollLimit = 3,
                    deadline = 100000, currentRound = 1, status = ACTIVE, messageId = None,
                    channelId = ''ch'', createdAt = 1000, updatedAt = 1000 \<rparr>"

definition fiftyRolls :: "UserRoll list" where
  "fiftyRolls = map (\<lambda>i. \<lparr> userId = ''u'' @ string_of_int i, username = ''u'' @ string_of_int i,
                             roll = i, timestamp = 2000, rollsUsed = 1 \<rparr>) [1..50]"

definition fiftyStore :: redis where
  "fiftyStore = \<lparr> enabled = True, online = True,
                   db = [(''tournament:t50'', Str (JSON (DConfig fiftyConfig))),
                         (''tournament:rolls:t50'',
                          Hash (map (\<lambda>x. (userId x, JSON (DRoll x))) fiftyRolls))] \<rparr>"

text \<open>The Cup tournament after \<open>endRound\<close> at time 3000 with its single participant, and
  after a later \<open>cancelTournament\<close> at time 9000.\<close>

definition cupCompleted :: redis where
  "cupCompleted = \<lparr> enabled = True, online = True,
      db = [(''tournament:tournament-1000'',
             Str (JSON (DConfig (cupConfig\<lparr>status := COMPLETED, updatedAt := 3000\<rparr>)))),
            (''tournament:round:tournament-1000:1'',
             Str (JSON (DRound \<lparr> roundNumber = 1, startTime = 1000, endTime = Some 3000,
                                 participants = [''u1''], eliminated = [],
                                 cutoffRoll = Some 51 \<rparr>)))] \<rparr>"

definition cupCancelled :: redis where
  "cupCancelled = \<lparr> enabled = True, online = True,
      db = [(''tournament:tournament-1000'',
             Str (JSON (DConfig (cupConfig\<lparr>status := CANCELLED, updatedAt := 9000\<rparr>)))),
            (''tournament:round:tournament-1000:1'',
             Str (JSON (DRound \<lparr> roundNumber = 1, startTime = 1000, endTime = Some 3000,
                                 participants = [''u1''], eliminated = [],
                                 cutoffRoll = Some 51 \<rparr>)))] \<rparr>"

section \<open>Basic facts about the stores\<close>

lemma map_of_replace:
  "map_of (map (\<lambda>(k', v'). if k' = k then (k', v) else (k', v')) kvs) k' =
     (if k' = k then map_option (\<lambda>old. v) (map_of kvs k) else map_of kvs k')"
  by (induction kvs) auto

lemma map_of_upsert: "map_of (upsert k v kvs) k' = (if k' = k then Some v else map_of kvs k')"
proof (cases "k \<in> fst ` set kvs")
  case True
  then obtain old where "map_of kvs k = Some old"
    by (cases "map_of kvs k") (auto simp: map_of_eq_None_iff)
  with True show ?thesis
    unfolding upsert_def by (simp add: map_of_replace)
next
  case False
  then have "map_of kvs k = None" by (simp add: map_of_eq_None_iff)
  with False show ?thesis
    unfolding upsert_def by (auto simp: map_add_def split: option.splits)
qed

lemma setRedis_total:
  "setRedis r key v t =
     Inr (enabled r \<and> online r,
          if enabled r \<and> online r then r\<lparr>db := upsert key (Str v) (db r)\<rparr> else r)"
  by (auto simp: setRedis_def client_set_def client_setex_def try_catch_def bindF_def
           split: option.splits)

lemma writeDisk_total:
  "writeDisk d p v =
     Inr (writable d, if writable d then d\<lparr>files := upsert p [v] (files d)\<rparr> else d)"
  by (simp add: writeDisk_def fs_writeFile_def try_catch_def bindF_def)

lemma appendDisk_total:
  "appendDisk d p v =
     Inr (writable d,
          if writable d
          then d\<lparr>files := upsert p ((case map_of (files d) p of None \<Rightarrow> [] | Some old \<Rightarrow> old) @ [v]) (files d)\<rparr>
          else d)"
  by (simp add: appendDisk_def fs_appendFile_def try_catch_def bindF_def)

section \<open>Facts about rounding to a double\<close>

lemma pow2_pos: "0 < pow2 e"
  by (simp add: pow2_def)

lemma pow2_add: "pow2 (a + b) = pow2 a * pow2 b"
proof -
  have p: "pow2 e = 2 powi e" for e
    by (simp add: pow2_def power_int_def inverse_eq_divide power_one_over)
  show ?thesis unfolding p by (simp add: power_int_add)
qed

lemma pow2_nat: "0 \<le> e \<Longrightarrow> pow2 e = of_int (2 ^ nat e)"
  by (simp add: pow2_def)

lemma pow2_mono: "a \<le> b \<Longrightarrow> pow2 a \<le> pow2 b"
proof -
  assume "a \<le> b"
  then have "pow2 b = pow2 a * pow2 (b - a)" using pow2_add[of a "b - a"] by simp
  moreover have "1 \<le> pow2 (b - a)" using \<open>a \<le> b\<close> by (simp add: pow2_def)
  ultimately show ?thesis using pow2_pos[of a] by (simp add: mult_le_cancel_left1)
qed

lemma ilog2_lower:
  assumes "0 < q"
  shows "pow2 (ilog2 q) \<le> q"
proof -
  obtain a b where ab: "quotient_of q = (a, b)" by (cases "quotient_of q") auto
  then have b: "0 < b" and q: "q = of_int a / of_int b"
    using quotient_of_denom_pos quotient_of_div by auto
  from assms b q have a: "0 < a" by (simp add: zero_less_divide_iff)
  define k where "k = bitlen a - bitlen b"
  have il: "ilog2 q = (if pow2 k \<le> q then k else k - 1)"
    by (simp add: ilog2_def ab k_def Let_def)
  show ?thesis
  proof (cases "pow2 k \<le> q")
    case True
    then show ?thesis by (simp add: il)
  next
    case False
    have la: "(2::int) ^ nat (bitlen a - 1) \<le> a" using bitlen_bounds[OF a] by simp
    have lb: "b < 2 ^ nat (bitlen b)" using bitlen_bounds[OF b] by simp
    have ba: "1 \<le> bitlen a" using a bitlen_nonneg[of a] bitlen_eq_zero_iff[of a] by linarith
    have bb: "1 \<le> bitlen b" using b bitlen_nonneg[of b] bitlen_eq_zero_iff[of b] by linarith
    have A: "pow2 (bitlen a - 1) \<le> of_int a"
      using la ba by (simp add: pow2_nat of_int_le_iff[symmetric] del: of_int_le_iff)
    have B: "of_int b \<le> pow2 (bitlen b)"
      using lb bb by (simp add: pow2_nat of_int_le_iff[symmetric] less_imp_le del: of_int_le_iff)
    have "pow2 (k - 1) * pow2 (bitlen b) = pow2 (bitlen a - 1)"
      using pow2_add[of "k - 1" "bitlen b"] by (simp add: k_def)
    then have "pow2 (k - 1) * of_int b \<le> of_int a"
      using A B pow2_pos[of "k - 1"]
      by (metis (no_types) mult_left_mono less_imp_le order_trans)
    then have "pow2 (k - 1) \<le> q"
      using b by (simp add: q pos_le_divide_eq)
    with False show ?thesis by (simp add: il)
  qed
qed

lemma round_half_even_int [simp]: "round_half_even (of_int k) = k"
  by (simp add: round_half_even_def)

lemma round_half_even_le:
  assumes "q \<le> of_int k"
  shows "round_half_even q \<le> k"
proof -
  have f: "\<lfloor>q\<rfloor> \<le> k" using assms by (simp add: floor_le_iff) 
  show ?thesis
  proof (cases "\<lfloor>q\<rfloor> = k")
    case True
    then have "q = of_int k" using assms by (metis of_int_floor_le order_antisym)
    then show ?thesis by simp
  next
    case False
    with f have "\<lfloor>q\<rfloor> + 1 \<le> k" by simp
    then show ?thesis by (auto simp: round_half_even_def Let_def)
  qed
qed

lemma round_half_even_nonneg:
  assumes "0 \<le> q"
  shows "0 \<le> round_half_even q"
proof -
  have "0 \<le> \<lfloor>q\<rfloor>" using assms by simp
  then show ?thesis by (auto simp: round_half_even_def Let_def)
qed

lemma fl64_nonneg:
  assumes "0 \<le> q"
  shows "0 \<le> fl64 q"
proof (cases "q = 0")
  case True
  then show ?thesis by (simp add: fl64_def)
next
  case False
  define e where "e = max (ilog2 \<bar>q\<bar> - 52) (- 1074)"
  have "0 \<le> q / pow2 e" using assms pow2_pos[of e] by simp
  then have "0 \<le> round_half_even (q / pow2 e)" by (rule round_half_even_nonneg)
  then show ?thesis
    using False pow2_pos[of e] by (simp add: fl64_def e_def[symmetric] Let_def)
qed

lemma fl64_le_nat:
  assumes "0 \<le> q" and "q \<le> of_nat m" and "m < 2 ^ 53"
  shows "fl64 q \<le> of_nat m"
proof (cases "q = 0")
  case True
  then show ?thesis by (simp add: fl64_def)
next
  case False
  with assms have qpos: "0 < q" by simp
  define e where "e = max (ilog2 \<bar>q\<bar> - 52) (- 1074)"
  have fl: "fl64 q = of_int (round_half_even (q / pow2 e)) * pow2 e"
    using False by (simp add: fl64_def e_def[symmetric] Let_def)
  have e0: "e \<le> 0"
  proof (rule ccontr)
    assume "\<not> e \<le> 0"
    then have "53 \<le> ilog2 \<bar>q\<bar>" by (simp add: e_def max_def split: if_splits)
    then have "pow2 53 \<le> pow2 (ilog2 \<bar>q\<bar>)" by (rule pow2_mono)
    also have "\<dots> \<le> \<bar>q\<bar>" using qpos by (intro ilog2_lower) simp
    finally have "pow2 53 \<le> q" using qpos by simp
    with assms(2) have "(2::rat) ^ 53 \<le> of_nat m" by (simp add: pow2_def)
    then have "(2::nat) ^ 53 \<le> m"
      by (metis of_nat_le_iff of_nat_numeral of_nat_power)
    with assms(3) show False by simp
  qed
  have pe: "pow2 e = 1 / 2 ^ nat (- e)" using e0 by (cases "e = 0") (simp_all add: pow2_def)
  have "q / pow2 e \<le> of_nat m / pow2 e"
    using assms(2) pow2_pos[of e] by (simp add: divide_right_mono)
  also have "of_nat m / pow2 e = of_int (int m * 2 ^ nat (- e))" by (simp add: pe)
  finally have "round_half_even (q / pow2 e) \<le> int m * 2 ^ nat (- e)"
    by (rule round_half_even_le)
  then have "(of_int (round_half_even (q / pow2 e)) :: rat) \<le> of_int (int m * 2 ^ nat (- e))"
    by (simp only: of_int_le_iff)
  then have "of_int (round_half_even (q / pow2 e)) * pow2 e \<le> of_int (int m * 2 ^ nat (- e)) * pow2 e"
    using pow2_pos[of e] by (simp add: mult_right_mono)
  also have "of_int (int m * 2 ^ nat (- e)) * pow2 e = of_nat m" by (simp add: pe)
  finally show ?thesis by (simp add: fl)
qed


lemma fl64_exact:
  assumes q: "q = of_int m * pow2 k" and m: "\<bar>m\<bar> < 2 ^ 53" and k: "- 1074 \<le> k"
  shows "fl64 q = q"
proof (cases "q = 0")
  case True
  then show ?thesis by (simp add: fl64_def)
next
  case False
  define e where "e = max (ilog2 \<bar>q\<bar> - 52) (- 1074)"
  have fl: "fl64 q = of_int (round_half_even (q / pow2 e)) * pow2 e"
    using False by (simp add: fl64_def e_def[symmetric] Let_def)
  have absq: "\<bar>q\<bar> = of_int \<bar>m\<bar> * pow2 k"
    using pow2_pos[of k] by (simp add: q abs_mult)
  have "ilog2 \<bar>q\<bar> < k + 53"
  proof (rule ccontr)
    assume "\<not> ilog2 \<bar>q\<bar> < k + 53"
    then have "pow2 (k + 53) \<le> pow2 (ilog2 \<bar>q\<bar>)" by (intro pow2_mono) simp
    also have "\<dots> \<le> \<bar>q\<bar>" using False by (intro ilog2_lower) simp
    finally have "pow2 k * pow2 53 \<le> of_int \<bar>m\<bar> * pow2 k" by (simp add: pow2_add absq)
    then have "pow2 53 \<le> of_int \<bar>m\<bar>" using pow2_pos[of k] by (simp add: mult.commute)
    then have "(of_int (2 ^ 53) :: rat) \<le> of_int \<bar>m\<bar>" by (simp add: pow2_def)
    then have "(2::int) ^ 53 \<le> \<bar>m\<bar>" by (simp only: of_int_le_iff)
    with m show False by simp
  qed
  with k have ek: "e \<le> k" by (simp add: e_def)
  have "pow2 k = pow2 (k - e) * pow2 e" using pow2_add[of "k - e" e] by simp
  then have qe: "q = of_int (m * 2 ^ nat (k - e)) * pow2 e"
    using ek by (simp add: q pow2_nat)
  then have "q / pow2 e = of_int (m * 2 ^ nat (k - e))"
    using pow2_pos[of e] by simp
  then have "round_half_even (q / pow2 e) = m * 2 ^ nat (k - e)"
    by (simp only: round_half_even_int)
  then show ?thesis unfolding fl using qe by simp
qed


lemma fl64_half: "fl64 (1 / 2) = 1 / 2"
  by code_simp

lemma eliminateCount_of_bounds:
  assumes "0 \<le> pct" and "pct \<le> 100" and "n < 2 ^ 53"
  shows "0 \<le> eliminateCount_of n pct \<and> eliminateCount_of n pct \<le> int n"
proof -
  define p where "p = fl64 (pct / 100)"
  have p0: "0 \<le> p" unfolding p_def using assms(1) by (intro fl64_nonneg) simp
  have "fl64 (pct / 100) \<le> of_nat 1"
    using assms(1,2) by (intro fl64_le_nat) simp_all
  then have p1: "p \<le> 1" by (simp add: p_def)
  have a: "0 \<le> of_nat n * p" using p0 by simp
  have b: "of_nat n * p \<le> of_nat n" using p1 by (simp add: mult_left_le)
  have "0 \<le> fl64 (of_nat n * p)" using a by (rule fl64_nonneg)
  moreover have "fl64 (of_nat n * p) \<le> of_nat n" using a b assms(3) by (rule fl64_le_nat)
  ultimately show ?thesis
    by (simp add: eliminateCount_of_def p_def[symmetric] floor_le_iff le_floor_iff)
qed

lemma half_exact:
  assumes "n < 2 ^ 53"
  shows "fl64 (of_nat n / 2) = of_nat n / 2"
proof (rule fl64_exact[where m = "int n" and k = "- 1"])
  show "rat_of_nat n / 2 = rat_of_int (int n) * pow2 (- 1)"
    by (simp add: pow2_def)
  have "int n < 2 ^ 53"
    using assms by (metis of_nat_less_iff of_nat_numeral of_nat_power)
  then show "\<bar>int n\<bar> < 2 ^ 53" by simp
  show "- 1074 \<le> (- 1 :: int)" by simp
qed


lemma eliminateCount_of_default:
  assumes "n < 2 ^ 53"
  shows "eliminateCount_of n 50 = int (n div 2)"
proof -
  have "eliminateCount_of n 50 = \<lfloor>(of_nat n :: rat) / 2\<rfloor>"
    by (simp add: eliminateCount_of_def fl64_half half_exact[OF assms])
  also have "\<dots> = int (n div 2)"
    using floor_divide_of_nat_eq[of n 2, where 'a = rat] by simp
  finally show ?thesis .
qed

lemma eliminateCount_of_examples:
  "eliminateCount_of 10 50 = 5" "eliminateCount_of 1 50 = 0"
  by code_simp+

section \<open>Facts about the roll map\<close>

lemma rolls_key_not_config: "TOURNAMENT_ROLLS_PREFIX @ tid \<noteq> TOURNAMENT_PREFIX @ tid"
proof
  assume "TOURNAMENT_ROLLS_PREFIX @ tid = TOURNAMENT_PREFIX @ tid"
  then have "length (TOURNAMENT_ROLLS_PREFIX @ tid) = length (TOURNAMENT_PREFIX @ tid)" by simp
  then show False by (simp add: TOURNAMENT_ROLLS_PREFIX_def TOURNAMENT_PREFIX_def)
qed

lemma storedConfig_iff:
  "storedConfig r tid = Some c \<longleftrightarrow> map_of (db r) (TOURNAMENT_PREFIX @ tid) = Some (Str (JSON (DConfig c)))"
  by (simp add: storedConfig_def split: option.splits entry.splits jtext.splits doc.splits)

lemma storedRoll_iff:
  "storedRoll r tid uid = Some x \<longleftrightarrow>
     (\<exists>h. map_of (db r) (TOURNAMENT_ROLLS_PREFIX @ tid) = Some (Hash h) \<and> map_of h uid = Some (JSON (DRoll x)))"
  by (simp add: storedRoll_def split: option.splits entry.splits jtext.splits doc.splits)

lemma parse_or_null_JSON [simp]: "parse_or_null (Some (JSON d)) = Inr (Some d)"
  by (simp add: parse_or_null_def falsy_def JSON_parse_def bindF_def)

lemma parse_or_null_Some:
  "parse_or_null v = Inr (Some d) \<longleftrightarrow> v = Some (JSON d)"
  by (auto simp: parse_or_null_def falsy_def JSON_parse_def bindF_def split: option.splits jtext.splits)

lemma getTournamentConfig_stored:
  assumes "storedConfig r tid = Some c"
  shows "getTournamentConfig r tid =
           (if \<not> enabled r then Inl ClientUnavailable
            else if \<not> online r then Inr None else Inr (Some (DConfig c)))"
  using assms unfolding storedConfig_iff
  by (simp add: getTournamentConfig_def requireRedisClient_def bindF_def
        try_catch_def client_get_def)

lemma getTournamentConfig_Some:
  assumes "getTournamentConfig r tid = Inr (Some d)"
  shows "map_of (db r) (TOURNAMENT_PREFIX @ tid) = Some (Str (JSON d))" and "enabled r" and "online r"
proof -
  from assms have en: "enabled r"
    by (auto simp: getTournamentConfig_def requireRedisClient_def bindF_def split: if_splits)
  from assms en have "\<exists>v. client_get r (TOURNAMENT_PREFIX @ tid) = Inr v \<and> parse_or_null v = Inr (Some d)"
    by (auto simp: getTournamentConfig_def requireRedisClient_def bindF_def try_catch_def
          split: sum.splits)
  then have g: "client_get r (TOURNAMENT_PREFIX @ tid) = Inr (Some (JSON d))"
    by (auto simp: parse_or_null_Some)
  from g show "online r" by (auto simp: client_get_def split: if_splits)
  from g show "map_of (db r) (TOURNAMENT_PREFIX @ tid) = Some (Str (JSON d))"
    by (auto simp: client_get_def split: if_splits option.splits entry.splits)
  show "enabled r" by (rule en)
qed

lemma getUserRoll_stored:
  assumes "storedRoll r tid uid = Some x" and "enabled r" and "online r"
  shows "getUserRoll r tid uid = Inr (Some (DRoll x))"
  using assms unfolding storedRoll_iff
  by (auto simp: getUserRoll_def requireRedisClient_def bindF_def try_catch_def client_hget_def)

lemma getUserRoll_Some_roll:
  assumes "getUserRoll r tid uid = Inr (Some (DRoll x))"
  shows "storedRoll r tid uid = Some x"
proof -
  from assms have en: "enabled r"
    by (auto simp: getUserRoll_def requireRedisClient_def bindF_def split: if_splits)
  from assms en have "\<exists>v. client_hget r (TOURNAMENT_ROLLS_PREFIX @ tid) uid = Inr v
                         \<and> parse_or_null v = Inr (Some (DRoll x))"
    by (auto simp: getUserRoll_def requireRedisClient_def bindF_def try_catch_def
          split: sum.splits)
  then have g: "client_hget r (TOURNAMENT_ROLLS_PREFIX @ tid) uid = Inr (Some (JSON (DRoll x)))"
    by (auto simp: parse_or_null_Some)
  then show ?thesis unfolding storedRoll_iff
    by (auto simp: client_hget_def split: if_splits option.splits entry.splits)
qed

lemma upsert_Nil: "upsert k v [] = [(k, v)]"
  by (simp add: upsert_def)

lemma client_hset_Inr:
  assumes "client_hset r key f v = Inr r'"
  shows "online r \<and> (\<exists>h. (map_of (db r) key = None \<and> h = [] \<or> map_of (db r) key = Some (Hash h))
            \<and> r' = r\<lparr>db := upsert key (Hash (upsert f v h)) (db r)\<rparr>)"
proof (cases "map_of (db r) key")
  case None
  with assms show ?thesis
    by (auto simp: client_hset_def upsert_Nil split: if_splits)
next
  case (Some en)
  with assms show ?thesis
    by (cases en) (auto simp: client_hset_def split: if_splits)
qed

lemma saveUserRoll_Inr:
  assumes "saveUserRoll r tid uid rl = Inr r'"
  shows "enabled r \<and> client_hset r (TOURNAMENT_ROLLS_PREFIX @ tid) uid (JSON (DRoll rl)) = Inr r'"
  using assms
  by (auto simp: saveUserRoll_def requireRedisClient_def bindF_def try_catch_def JSON_stringify_def
        split: if_splits sum.splits)

lemma saveUserRoll_effect:
  assumes "saveUserRoll r tid uid rl = Inr r'"
  shows "storedRoll r' tid uid' = (if uid' = uid then Some rl else storedRoll r tid uid')"
    and "storedConfig r' tid' = storedConfig r tid'"
    and "enabled r' = enabled r" and "online r' = online r" and "enabled r" and "online r"
proof -
  from saveUserRoll_Inr[OF assms] have en: "enabled r"
    and hs: "client_hset r (TOURNAMENT_ROLLS_PREFIX @ tid) uid (JSON (DRoll rl)) = Inr r'" by auto
  from client_hset_Inr[OF hs] obtain h where on: "online r"
    and h: "map_of (db r) (TOURNAMENT_ROLLS_PREFIX @ tid) = None \<and> h = []
            \<or> map_of (db r) (TOURNAMENT_ROLLS_PREFIX @ tid) = Some (Hash h)"
    and r': "r' = r\<lparr>db := upsert (TOURNAMENT_ROLLS_PREFIX @ tid) (Hash (upsert uid (JSON (DRoll rl)) h)) (db r)\<rparr>"
    by auto
  show "enabled r" "online r" by (rule en, rule on)
  show "enabled r' = enabled r" "online r' = online r" by (simp_all add: r')
  have old: "storedRoll r tid uid' = (case map_of h uid' of Some (JSON (DRoll x)) \<Rightarrow> Some x | _ \<Rightarrow> None)"
    using h by (auto simp: storedRoll_def)
  show "storedRoll r' tid uid' = (if uid' = uid then Some rl else storedRoll r tid uid')"
    unfolding old by (simp add: r' storedRoll_def map_of_upsert)
  have "storedConfig r tid' = None" if "TOURNAMENT_PREFIX @ tid' = TOURNAMENT_ROLLS_PREFIX @ tid"
    using h that by (auto simp: storedConfig_def)
  then show "storedConfig r' tid' = storedConfig r tid'"
    by (auto simp: r' storedConfig_def map_of_upsert)
qed

lemma saveUserRoll_succeeds:
  assumes "enabled r" and "online r" and "storedRoll r tid uid = Some x"
  shows "\<exists>r'. saveUserRoll r tid uid rl = Inr r'"
  using assms unfolding storedRoll_iff
  by (auto simp: saveUserRoll_def requireRedisClient_def bindF_def try_catch_def client_hset_def)


lemma rollWith_cases:
  assumes "rollWith r now u config tid uid uname existing = Inr (out, r')"
    and "1 \<le> rollLimit config"
  shows "r' = r \<or> (\<exists>rl. saveUserRoll r tid uid rl = Inr r' \<and> rollsUsed rl \<le> rollLimit config
                        \<and> (\<forall>x. existing = Some x \<longrightarrow> roll x \<le> roll rl))"
proof (cases existing)
  case None
  with assms show ?thesis
    by (auto simp: rollWith_def bindF_def Let_def split: sum.splits)
next
  case (Some x)
  show ?thesis
  proof (cases "rollsUsed x \<ge> rollLimit config")
    case True
    with Some assms show ?thesis by (simp add: rollWith_def)
  next
    case False
    show ?thesis
    proof (cases "rollValue_of u (maxRoll config) > roll x")
      case True
      with Some False assms show ?thesis
        by (auto simp: rollWith_def bindF_def Let_def split: sum.splits)
    next
      case nb: False
      with Some False assms show ?thesis
        by (auto simp: rollWith_def bindF_def Let_def split: sum.splits)
    qed
  qed
qed

lemma processUserRoll_cases:
  assumes run: "processUserRoll r now u tid uid uname = Inr (out, r')"
    and cfg: "storedConfig r tid = Some config"
    and lim: "1 \<le> rollLimit config"
  shows "r' = r \<or> (\<exists>rl. saveUserRoll r tid uid rl = Inr r' \<and> rollsUsed rl \<le> rollLimit config
                        \<and> (\<forall>x. storedRoll r tid uid = Some x \<longrightarrow> roll x \<le> roll rl))"
proof (cases "enabled r \<and> online r")
  case False
  then have "getTournamentConfig r tid = Inl ClientUnavailable \<or> getTournamentConfig r tid = Inr None"
    by (auto simp: getTournamentConfig_stored[OF cfg])
  with run show ?thesis
    by (auto simp: processUserRoll_def bindF_def)
next
  case True
  then have g: "getTournamentConfig r tid = Inr (Some (DConfig config))"
    by (simp add: getTournamentConfig_stored[OF cfg])
  show ?thesis
  proof (cases "status config \<noteq> ACTIVE \<or> now > deadline config")
    case True
    with run g show ?thesis by (auto simp: processUserRoll_def bindF_def split: if_splits)
  next
    case ok: False
    have "\<exists>v. getUserRoll r tid uid = Inr v"
      using True by (auto simp: getUserRoll_def requireRedisClient_def bindF_def try_catch_def
            split: sum.splits)
    then obtain v where v: "getUserRoll r tid uid = Inr v" by blast
    show ?thesis
    proof (cases v)
      case None
      with run g ok v have rw: "rollWith r now u config tid uid uname None = Inr (out, r')"
        by (simp add: processUserRoll_def bindF_def)
      have "storedRoll r tid uid = None"
      proof (cases "storedRoll r tid uid")
        case (Some x)
        from getUserRoll_stored[OF Some] True v None show ?thesis by simp
      qed simp
      with rollWith_cases[OF rw lim] show ?thesis by auto
    next
      case (Some d)
      show ?thesis
      proof (cases d)
        case (DRoll x)
        with run g ok v Some have rw: "rollWith r now u config tid uid uname (Some x) = Inr (out, r')"
          by (simp add: processUserRoll_def bindF_def)
        have "storedRoll r tid uid = Some x"
          using getUserRoll_Some_roll v Some DRoll by simp
        with rollWith_cases[OF rw lim] show ?thesis by auto
      qed (use run g ok v Some in \<open>simp_all add: processUserRoll_def bindF_def\<close>)
    qed
  qed
qed

lemma processUserRoll_preserves:
  assumes run: "processUserRoll r now u tid uid uname = Inr (out, r')"
    and cfg: "storedConfig r tid = Some config"
    and lim: "1 \<le> rollLimit config"
  shows "storedConfig r' tid = Some config"
    and "(\<forall>w x. storedRoll r tid w = Some x \<longrightarrow> rollsUsed x \<le> rollLimit config)
          \<Longrightarrow> storedRoll r' tid w = Some y \<Longrightarrow> rollsUsed y \<le> rollLimit config"
    and "storedRoll r tid w = Some x \<Longrightarrow> \<exists>y. storedRoll r' tid w = Some y \<and> roll x \<le> roll y"
proof -
  note c = processUserRoll_cases[OF run cfg lim]
  show "storedConfig r' tid = Some config"
    using c cfg by (auto simp: saveUserRoll_effect(2))
  show "storedRoll r' tid w = Some y \<Longrightarrow> rollsUsed y \<le> rollLimit config"
    if "\<forall>w x. storedRoll r tid w = Some x \<longrightarrow> rollsUsed x \<le> rollLimit config"
    using c that by (auto simp: saveUserRoll_effect(1) split: if_splits)
  show "\<exists>y. storedRoll r' tid w = Some y \<and> roll x \<le> roll y" if "storedRoll r tid w = Some x"
    using c that by (auto simp: saveUserRoll_effect(1))
qed

lemma rollMany_invariants:
  assumes "storedConfig r tid = Some config" and "1 \<le> rollLimit config"
  shows "storedConfig (rollMany r tid calls) tid = Some config
       \<and> ((\<forall>w x. storedRoll r tid w = Some x \<longrightarrow> rollsUsed x \<le> rollLimit config)
            \<longrightarrow> (\<forall>w y. storedRoll (rollMany r tid calls) tid w = Some y
                        \<longrightarrow> rollsUsed y \<le> rollLimit config))
       \<and> (\<forall>w x. storedRoll r tid w = Some x
            \<longrightarrow> (\<exists>y. storedRoll (rollMany r tid calls) tid w = Some y \<and> roll x \<le> roll y))"
  using assms
proof (induction calls arbitrary: r)
  case Nil
  then show ?case by simp
next
  case (Cons c calls)
  obtain now u uid uname where c: "c = (now, u, uid, uname)" by (cases c) auto
  define r1 where "r1 = (case processUserRoll r now u tid uid uname of
                           Inl e \<Rightarrow> r | Inr (out, r1) \<Rightarrow> r1)"
  have step: "rollMany r tid (c # calls) = rollMany r1 tid calls"
    by (simp add: c r1_def)
  have c1: "storedConfig r1 tid = Some config"
    using Cons.prems processUserRoll_preserves(1)[of r now u tid uid uname _ _ config]
    by (auto simp: r1_def split: sum.splits)
  have lim1: "\<forall>w y. storedRoll r1 tid w = Some y \<longrightarrow> rollsUsed y \<le> rollLimit config"
    if "\<forall>w x. storedRoll r tid w = Some x \<longrightarrow> rollsUsed x \<le> rollLimit config"
    using Cons.prems that processUserRoll_preserves(2)[of r now u tid uid uname _ _ config]
    by (auto simp: r1_def split: sum.splits)
  have mono1: "\<exists>y. storedRoll r1 tid w = Some y \<and> roll x \<le> roll y"
    if "storedRoll r tid w = Some x" for w x
    using Cons.prems that processUserRoll_preserves(3)[of r now u tid uid uname _ _ config w x]
    by (auto simp: r1_def split: sum.splits)
  note ih = Cons.IH[OF c1 Cons.prems(2)]
  show ?case
    unfolding step
  proof (intro conjI impI allI)
    show "storedConfig (rollMany r1 tid calls) tid = Some config" using ih by blast
  next
    fix w y
    assume "\<forall>w x. storedRoll r tid w = Some x \<longrightarrow> rollsUsed x \<le> rollLimit config"
      and "storedRoll (rollMany r1 tid calls) tid w = Some y"
    then show "rollsUsed y \<le> rollLimit config" using ih lim1 by blast
  next
    fix w x
    assume "storedRoll r tid w = Some x"
    then obtain y where y: "storedRoll r1 tid w = Some y" "roll x \<le> roll y" using mono1 by blast
    then obtain z where "storedRoll (rollMany r1 tid calls) tid w = Some z" "roll y \<le> roll z"
      using ih by blast
    with y show "\<exists>y. storedRoll (rollMany r1 tid calls) tid w = Some y \<and> roll x \<le> roll y"
      by (intro exI[of _ z]) simp
  qed
qed

lemma processUserRoll_at_limit:
  assumes "storedConfig r tid = Some config" and "status config = ACTIVE"
    and "now \<le> deadline config" and "enabled r" and "online r"
    and "storedRoll r tid uid = Some x" and "rollLimit config \<le> rollsUsed x"
  shows "processUserRoll r now u tid uid uname =
           Inr (Outcome False (''You have used all '' @ string_of_int (rollLimit config) @ '' rolls'')
                  None, r)"
  using assms
  by (simp add: processUserRoll_def getTournamentConfig_stored getUserRoll_stored bindF_def
        rollWith_def)

lemma processUserRoll_not_better:
  assumes "storedConfig r tid = Some config" and "status config = ACTIVE"
    and "now \<le> deadline config" and "enabled r" and "online r"
    and "storedRoll r tid uid = Some x" and "rollsUsed x < rollLimit config"
    and "rollValue_of u (maxRoll config) \<le> roll x"
  shows "\<exists>r'. processUserRoll r now u tid uid uname =
           Inr (Outcome True
                  (''Rolled '' @ string_of_int (rollValue_of u (maxRoll config))
                     @ '', but your previous roll of '' @ string_of_int (roll x)
                     @ '' was better. ('' @ string_of_int (rollsUsed x + 1) @ ''/''
                     @ string_of_int (rollLimit config) @ '' rolls used)'')
                  (Some x), r')
         \<and> storedRoll r' tid uid = Some (x\<lparr>rollsUsed := rollsUsed x + 1\<rparr>)"
proof -
  obtain r' where sv: "saveUserRoll r tid uid (x\<lparr>rollsUsed := rollsUsed x + 1\<rparr>) = Inr r'"
    using saveUserRoll_succeeds[OF assms(4,5,6)] by blast
  have "processUserRoll r now u tid uid uname =
           Inr (Outcome True
                  (''Rolled '' @ string_of_int (rollValue_of u (maxRoll config))
                     @ '', but your previous roll of '' @ string_of_int (roll x)
                     @ '' was better. ('' @ string_of_int (rollsUsed x + 1) @ ''/''
                     @ string_of_int (rollLimit config) @ '' rolls used)'')
                  (Some x), r')"
    using assms sv
    by (simp add: processUserRoll_def getTournamentConfig_stored getUserRoll_stored bindF_def
        rollWith_def Let_def)
  moreover have "storedRoll r' tid uid = Some (x\<lparr>rollsUsed := rollsUsed x + 1\<rparr>)"
    using saveUserRoll_effect(1)[OF sv, of uid] by simp
  ultimately show ?thesis by blast
qed

section \<open>Facts about keys and the writes of \<open>endRound\<close>\<close>

lemma nat_of_string_snoc: "nat_of_string (cs @ [c]) = 10 * nat_of_string cs + (of_char c - 48)"
  by (simp add: nat_of_string_def)

lemma nat_of_string_of_nat: "nat_of_string (string_of_nat n) = n"
proof (induction n rule: string_of_nat.induct)
  case (1 n)
  show ?case
  proof (cases "n < 10")
    case True
    then have "string_of_nat n = [char_of (48 + n)]" by (subst string_of_nat.simps) simp
    moreover have "(48 + n) mod 256 = 48 + n" using True by simp
    ultimately show ?thesis by (simp add: nat_of_string_def)
  next
    case False
    then have s: "string_of_nat n = string_of_nat (n div 10) @ [char_of (48 + n mod 10)]"
      by (subst string_of_nat.simps) simp
    have "(48 + n mod 10) mod 256 = 48 + n mod 10"
      by (rule mod_less) (use mod_less_divisor[of 10 n] in linarith)
    then show ?thesis
      using 1[OF False] by (simp add: s nat_of_string_snoc)
  qed
qed

lemma string_of_nat_inj: "string_of_nat a = string_of_nat b \<Longrightarrow> a = b"
  by (metis nat_of_string_of_nat)

lemma string_of_int_succ: "string_of_int (c + 1) \<noteq> string_of_int c"
proof (cases "0 \<le> c")
  case True
  then show ?thesis by (auto simp: string_of_int_def dest!: string_of_nat_inj)
next
  case False
  show ?thesis
  proof (cases "c = - 1")
    case True
    have "string_of_int 0 \<noteq> string_of_int (- 1)" by code_simp
    then show ?thesis using True by simp
  next
    case f: False
    with False have "c + 1 < 0" by simp
    with False show ?thesis by (auto simp: string_of_int_def dest!: string_of_nat_inj)
  qed
qed

lemma round_key_succ: "round_key tid (c + 1) \<noteq> round_key tid c"
  by (simp add: round_key_def string_of_int_succ)

lemma round_key_not_config: "round_key tid n \<noteq> TOURNAMENT_PREFIX @ tid"
proof
  assume "round_key tid n = TOURNAMENT_PREFIX @ tid"
  then have "length (round_key tid n) = length (TOURNAMENT_PREFIX @ tid)" by simp
  then show False by (simp add: round_key_def TOURNAMENT_ROUND_PREFIX_def TOURNAMENT_PREFIX_def)
qed

lemma round_key_not_rolls: "round_key tid n \<noteq> TOURNAMENT_ROLLS_PREFIX @ tid'"
  by (simp add: round_key_def TOURNAMENT_ROUND_PREFIX_def TOURNAMENT_ROLLS_PREFIX_def)

lemma map_of_remove_key: "map_of (remove_key k kvs) k' = (if k' = k then None else map_of kvs k')"
  by (induction kvs) (auto simp: remove_key_def)

lemma saveRoundData_online:
  "enabled r \<Longrightarrow> online r \<Longrightarrow>
     saveRoundData r tid n rd = Inr (r\<lparr>db := upsert (round_key tid n) (Str (JSON (DRound rd))) (db r)\<rparr>)"
  by (simp add: saveRoundData_def requireRedisClient_def bindF_def try_catch_def client_set_def
        JSON_stringify_def)

lemma deleteAllUserRolls_online:
  "enabled r \<Longrightarrow> online r \<Longrightarrow>
     deleteAllUserRolls r tid = Inr (r\<lparr>db := remove_key (TOURNAMENT_ROLLS_PREFIX @ tid) (db r)\<rparr>)"
  by (simp add: deleteAllUserRolls_def requireRedisClient_def bindF_def try_catch_def client_del_def)

lemma saveTournamentConfig_online:
  "enabled r \<Longrightarrow> online r \<Longrightarrow>
     saveTournamentConfig r c =
       Inr (r\<lparr>db := upsert (TOURNAMENT_PREFIX @ idT c) (Str (JSON (DConfig c))) (db r)\<rparr>)"
  by (simp add: saveTournamentConfig_def requireRedisClient_def bindF_def try_catch_def
        client_set_def JSON_stringify_def)

lemma getRoundData_online: "enabled r \<Longrightarrow> \<exists>prev. getRoundData r tid n = Inr prev"
  by (simp add: getRoundData_def requireRedisClient_def bindF_def try_catch_def split: sum.splits)

lemma closeRound_online:
  assumes en: "enabled r" and on: "online r" and ne: "allRolls \<noteq> []"
  shows "\<exists>st. closeRound r now config tid pct allRolls = closedRound r now config tid pct allRolls st"
proof -
  obtain previous where prev: "getRoundData r tid (currentRound config) = Inr previous"
    using getRoundData_online[OF en] by blast
  define st where "st = or_number (case previous of Some (DRound rd) \<Rightarrow> Some (startTime rd) | _ \<Rightarrow> None) now"
  have len: "length (sortDescending allRolls) = length allRolls"
    by (simp add: sortDescending_def)
  then have "sortDescending allRolls \<noteq> []" using ne by auto
  then have at0: "at_index (sortDescending allRolls) 0 = Some (hd (sortDescending allRolls))"
    by (cases "sortDescending allRolls") (simp_all add: at_index_def)
  show ?thesis
    apply (rule exI[of _ st])
    apply (simp only: Let_def closeRound_def closedRound_def prev bindF_def sum.case st_def[symmetric])
    apply (simp add: saveRoundData_online deleteAllUserRolls_online saveTournamentConfig_online
        en on at0 closedDb_def bindF_def)
    done
qed

section \<open>Facts about sorting and slicing\<close>

lemma rolls_of_map_DRoll [simp]: "rolls_of (map DRoll xs) = Some xs"
  by (induction xs) simp_all

lemma sortDescending_mset [simp]: "mset (sortDescending xs) = mset xs"
  by (simp add: sortDescending_def)

lemma sortDescending_length [simp]: "length (sortDescending xs) = length xs"
  by (simp add: sortDescending_def)

lemma sortDescending_set [simp]: "set (sortDescending xs) = set xs"
  by (simp add: sortDescending_def)

lemma sortDescending_sorted: "sorted_wrt (\<lambda>a b. roll b \<le> roll a) (sortDescending xs)"
proof -
  have "sorted (map (\<lambda>x. - roll x) (sortDescending xs))"
    unfolding sortDescending_def by (rule sorted_sort_key)
  then show ?thesis by (simp add: sorted_map)
qed

lemma sortDescending_split:
  "a \<in> set (drop k (sortDescending xs)) \<Longrightarrow> b \<in> set (take k (sortDescending xs)) \<Longrightarrow> roll a \<le> roll b"
proof -
  have "sorted_wrt (\<lambda>a b. roll b \<le> roll a) (take k (sortDescending xs) @ drop k (sortDescending xs))"
    using sortDescending_sorted[of xs] by simp
  then show "a \<in> set (drop k (sortDescending xs)) \<Longrightarrow> b \<in> set (take k (sortDescending xs)) \<Longrightarrow> roll a \<le> roll b"
    unfolding sorted_wrt_append by blast
qed

lemma sortDescending_hd:
  assumes "xs \<noteq> []"
  shows "hd (sortDescending xs) \<in> set xs" and "x \<in> set xs \<Longrightarrow> roll x \<le> roll (hd (sortDescending xs))"
proof -
  from assms have ne: "sortDescending xs \<noteq> []" by (metis sortDescending_length length_0_conv)
  then obtain y ys where y: "sortDescending xs = y # ys" by (cases "sortDescending xs") auto
  have "y \<in> set (sortDescending xs)" by (simp add: y)
  then have "y \<in> set xs" by (simp only: sortDescending_set)
  then show "hd (sortDescending xs) \<in> set xs" by (simp add: y)
  assume "x \<in> set xs"
  then have "x \<in> set (y # ys)" using y by (metis sortDescending_set)
  moreover have "sorted_wrt (\<lambda>a b. roll b \<le> roll a) (y # ys)"
    using sortDescending_sorted[of xs] by (simp add: y)
  ultimately show "roll x \<le> roll (hd (sortDescending xs))"
    by (auto simp: y)
qed

lemma endRound_active:
  assumes "enabled r" and "online r" and "storedConfig r tid = Some config"
    and "status config = ACTIVE" and "getAllUserRolls r tid = Inr (map DRoll allRolls)"
    and "allRolls \<noteq> []"
  shows "endRound r now tid pct = closeRound r now config tid pct allRolls"
  using assms
  by (simp add: endRound_def getTournamentConfig_stored bindF_def)

lemma storedConfig_upsert_config:
  "storedConfig (r\<lparr>db := upsert (TOURNAMENT_PREFIX @ tid) (Str (JSON (DConfig c))) kvs\<rparr>) tid = Some c"
  by (simp add: storedConfig_def map_of_upsert)

lemma storedConfig_upsert_round:
  "storedConfig (r\<lparr>db := upsert (round_key tid n) v kvs\<rparr>) tid = storedConfig (r\<lparr>db := kvs\<rparr>) tid"
  using round_key_not_config[of tid n]
  by (simp add: storedConfig_def map_of_upsert)


lemma or_number_zero [simp]: "or_number (Some x) 0 = x"
  by (simp add: or_number_def)

lemma slice_from_drop:
  assumes "0 \<le> e" and "e \<le> int (length xs)"
  shows "slice_from xs (int (length xs) - e) = drop (length xs - nat e) xs"
proof -
  have "slice_bound xs (int (length xs) - e) = length xs - nat e"
    using assms by (simp add: slice_bound_def Let_def min_def nat_diff_distrib')
  then show ?thesis by (simp add: slice_from_def)
qed

lemma lookup_closed_round:
  assumes "idT config = tid"
  shows "map_of (upsert (TOURNAMENT_PREFIX @ idT config) v (closedDb r config tid rd))
           (round_key tid (currentRound config)) = Some (Str (JSON (DRound rd)))"
  using assms round_key_not_config[of tid "currentRound config"]
    round_key_not_rolls[of tid "currentRound config" tid]
  by (simp add: map_of_upsert closedDb_def map_of_remove_key)

lemma lookup_next_round:
  assumes "idT config = tid"
  shows "map_of (upsert (TOURNAMENT_PREFIX @ idT config) v (closedDb r config tid rd))
           (round_key tid (currentRound config + 1)) = map_of (db r) (round_key tid (currentRound config + 1))"
  using assms round_key_not_config[of tid "currentRound config + 1"]
    round_key_not_rolls[of tid "currentRound config + 1" tid]
    round_key_succ[of tid "currentRound config"]
  by (simp add: map_of_upsert closedDb_def map_of_remove_key)

lemma lookup_closed_round_next:
  assumes "idT config = tid"
  shows "map_of (upsert (round_key tid (currentRound config + 1)) w
                   (upsert (TOURNAMENT_PREFIX @ idT config) v (closedDb r config tid rd)))
           (round_key tid (currentRound config)) = Some (Str (JSON (DRound rd)))"
  using lookup_closed_round[OF assms, of v r rd] round_key_succ[of tid "currentRound config"]
  by (simp add: map_of_upsert)

lemma endRound_round_data:
  assumes en: "enabled r" and on: "online r" and cfg: "storedConfig r tid = Some config"
    and idc: "idT config = tid" and act: "status config = ACTIVE"
    and rolls: "getAllUserRolls r tid = Inr (map DRoll allRolls)" and ne: "allRolls \<noteq> []"
  shows "\<exists>msg r' st.
           endRound r now tid pct =
             Inr (Outcome True msg
                    (Some (map userId (slice_from (sortDescending allRolls)
                       (int (length allRolls) - eliminateCount_of (length allRolls) pct)))), r')
         \<and> map_of (db r') (round_key tid (currentRound config)) =
             Some (Str (JSON (DRound
               \<lparr> roundNumber = currentRound config, startTime = st, endTime = Some now,
                 participants = map userId (sortDescending allRolls),
                 eliminated = map userId (slice_from (sortDescending allRolls)
                       (int (length allRolls) - eliminateCount_of (length allRolls) pct)),
                 cutoffRoll = Some (or_number (map_option roll (at_index (sortDescending allRolls)
                      (max 0 (int (length allRolls) - eliminateCount_of (length allRolls) pct - 1)))) 0) \<rparr>)))"
proof -
  obtain st where cr: "closeRound r now config tid pct allRolls = closedRound r now config tid pct allRolls st"
    using closeRound_online[OF en on ne] by blast
  show ?thesis
  proof (cases "int (length allRolls) - eliminateCount_of (length allRolls) pct \<le> 1")
    case True
    with cr[unfolded closedRound_def] show ?thesis
      unfolding endRound_active[OF en on cfg act rolls ne]
      by (simp add: Let_def lookup_closed_round[OF idc])
  next
    case False
    with cr[unfolded closedRound_def] show ?thesis
      unfolding endRound_active[OF en on cfg act rolls ne]
      by (simp add: Let_def lookup_closed_round_next[OF idc])
  qed
qed

section \<open>Facts about the status of a tournament\<close>

lemma rollWith_state:
  assumes "rollWith r now u config tid uid uname existing = Inr (out, r')"
  shows "r' = r \<or> (\<exists>rl. saveUserRoll r tid uid rl = Inr r')"
proof (cases existing)
  case None
  with assms show ?thesis
    by (auto simp: rollWith_def bindF_def Let_def split: sum.splits)
next
  case (Some x)
  show ?thesis
  proof (cases "rollsUsed x \<ge> rollLimit config")
    case True
    with Some assms show ?thesis by (simp add: rollWith_def)
  next
    case False
    with Some assms show ?thesis
      by (cases "rollValue_of u (maxRoll config) > roll x")
         (auto simp: rollWith_def bindF_def Let_def split: sum.splits)
  qed
qed

lemma processUserRoll_state:
  assumes run: "processUserRoll r now u tid uid uname = Inr (out, r')"
  shows "r' = r \<or> (\<exists>rl. saveUserRoll r tid uid rl = Inr r')"
proof (cases "getTournamentConfig r tid")
  case (Inl e)
  with run show ?thesis by (simp add: processUserRoll_def bindF_def)
next
  case (Inr found)
  show ?thesis
  proof (cases found)
    case None
    with run Inr show ?thesis by (simp add: processUserRoll_def bindF_def)
  next
    case (Some d)
    show ?thesis
    proof (cases d)
      case (DConfig config)
      show ?thesis
      proof (cases "status config \<noteq> ACTIVE \<or> now > deadline config")
        case True
        with run Inr Some DConfig show ?thesis
          by (auto simp: processUserRoll_def bindF_def split: if_splits)
      next
        case ok: False
        show ?thesis
        proof (cases "getUserRoll r tid uid")
          case (Inl e)
          with run Inr Some DConfig ok show ?thesis by (simp add: processUserRoll_def bindF_def)
        next
          case gr: (Inr existing)
          show ?thesis
          proof (cases existing)
            case None
            with run Inr Some DConfig ok gr
            have "rollWith r now u config tid uid uname None = Inr (out, r')"
              by (simp add: processUserRoll_def bindF_def)
            then show ?thesis by (rule rollWith_state)
          next
            case sd: (Some d')
            show ?thesis
            proof (cases d')
              case (DRoll x)
              with run Inr Some DConfig ok gr sd
              have "rollWith r now u config tid uid uname (Some x) = Inr (out, r')"
                by (simp add: processUserRoll_def bindF_def)
              then show ?thesis by (rule rollWith_state)
            qed (use run Inr Some DConfig ok gr sd in \<open>simp_all add: processUserRoll_def bindF_def\<close>)
          qed
        qed
      qed
    qed (use run Inr Some in \<open>simp_all add: processUserRoll_def bindF_def\<close>)
  qed
qed

lemma processUserRoll_config:
  assumes "processUserRoll r now u tid uid uname = Inr (out, r')"
  shows "storedConfig r' tid' = storedConfig r tid'"
  using processUserRoll_state[OF assms] by (auto simp: saveUserRoll_effect(2))

lemma processUserRoll_inactive:
  assumes "storedConfig r tid = Some config" and "status config \<noteq> ACTIVE"
    and "processUserRoll r now u tid uid uname = Inr (out, r')"
  shows "r' = r \<and> \<not> success out"
  using assms(2,3)
  by (auto simp: processUserRoll_def getTournamentConfig_stored[OF assms(1)] bindF_def
        split: if_splits)

lemma endRound_inactive:
  assumes "storedConfig r tid = Some config" and "status config \<noteq> ACTIVE"
    and "endRound r now tid pct = Inr (out, r')"
  shows "r' = r \<and> \<not> success out"
  using assms(2,3)
  by (auto simp: endRound_def getTournamentConfig_stored[OF assms(1)] bindF_def
        split: if_splits)

lemma rolls_of_Some: "rolls_of ds = Some xs \<Longrightarrow> ds = map DRoll xs"
proof (induction ds arbitrary: xs)
  case Nil
  then show ?case by simp
next
  case (Cons d ds)
  then show ?case by (cases d) auto
qed

lemma endRound_status:
  assumes cfg: "storedConfig r tid = Some config" and idc: "idT config = tid"
    and run: "endRound r now tid pct = Inr (out, r')"
  shows "\<exists>c'. storedConfig r' tid = Some c'
            \<and> (status c' = status config \<or> status config = ACTIVE \<and> status c' = COMPLETED)"
proof (cases "enabled r \<and> online r \<and> status config = ACTIVE")
  case False
  then have "r' = r"
    using run by (auto simp: endRound_def getTournamentConfig_stored[OF cfg] bindF_def
        split: if_splits)
  with cfg show ?thesis by simp
next
  case True
  then have en: "enabled r" and on: "online r" and act: "status config = ACTIVE" by simp_all
  have "\<exists>docs. getAllUserRolls r tid = Inr docs"
    using en by (simp add: getAllUserRolls_def requireRedisClient_def bindF_def try_catch_def
        split: sum.splits)
  then obtain docs where docs: "getAllUserRolls r tid = Inr docs" by blast
  show ?thesis
  proof (cases "docs = []")
    case True
    then have "r' = r"
      using run en on act docs by (simp add: endRound_def getTournamentConfig_stored[OF cfg] bindF_def)
    with cfg show ?thesis by simp
  next
    case ne: False
    show ?thesis
    proof (cases "rolls_of docs")
      case None
      then show ?thesis
        using run en on act docs ne
        by (simp add: endRound_def getTournamentConfig_stored[OF cfg] bindF_def)
    next
      case (Some allRolls)
      then have d: "docs = map DRoll allRolls" by (rule rolls_of_Some)
      with ne have ne': "allRolls \<noteq> []" by auto
      have e: "endRound r now tid pct = closeRound r now config tid pct allRolls"
        using endRound_active[OF en on cfg act docs[unfolded d] ne'] .
      obtain st where cr: "closeRound r now config tid pct allRolls = closedRound r now config tid pct allRolls st"
    using closeRound_online[OF en on ne'] by blast
      show ?thesis
      proof (cases "int (length allRolls) - eliminateCount_of (length allRolls) pct \<le> 1")
        case True
        with cr[unfolded closedRound_def] run e have "storedConfig r' tid = Some (config\<lparr>status := COMPLETED, updatedAt := now\<rparr>)"
          by (auto simp: Let_def idc storedConfig_upsert_config)
        then show ?thesis using act by simp
      next
        case False
        with cr[unfolded closedRound_def] run e have "storedConfig r' tid = Some (config\<lparr>currentRound := currentRound config + 1, updatedAt := now\<rparr>)"
          by (auto simp: Let_def idc storedConfig_upsert_round storedConfig_upsert_config)
        then show ?thesis by simp
      qed
    qed
  qed
qed

lemma cancelTournament_found:
  assumes "storedConfig r tid = Some config" and "idT config = tid" and "enabled r" and "online r"
  shows "\<exists>r'. cancelTournament r now tid = Inr (True, r')
             \<and> storedConfig r' tid = Some (config\<lparr>status := CANCELLED, updatedAt := now\<rparr>)"
  using assms
  by (simp add: cancelTournament_def getTournamentConfig_stored bindF_def
        saveTournamentConfig_online storedConfig_upsert_config)

lemma cancelTournament_missing:
  assumes "getTournamentConfig r tid = Inr None"
  shows "cancelTournament r now tid = Inr (False, r)"
  using assms by (simp add: cancelTournament_def bindF_def)

section \<open>Storage facade: \<open>storeData\<close>\<close>

text \<open>
  Claim C8. For every key, value and options, \<open>storeData\<close> writes to the cache tier
  first; it writes to the disk tier as well exactly when \<open>persistToDisk\<close> is true or the
  cache write failed; it returns true when one of the writes it made succeeded and false
  only when both failed; and it never raises (the result is always \<open>Inr\<close>). The cache write
  succeeds exactly when a client exists and answers; the disk write exactly when the
  file system accepts writes. In particular, with no cache client and \<open>persistToDisk\<close>
  true the result is true as soon as the disk is writable.
\<close>

theorem storeData_tiers:
  "storeData s key v options =
     (let cacheOk = (enabled (cache s) \<and> online (cache s));
          toDisk = (persistToDisk options = Some True \<or> \<not> cacheOk);
          diskOk = (toDisk \<and> writable (durable s))
      in Inr (cacheOk \<or> diskOk,
              \<lparr> cache = (if cacheOk then (cache s)\<lparr>db := upsert key (Str v) (db (cache s))\<rparr>
                          else cache s),
                durable = (if diskOk
                           then (durable s)\<lparr>files := upsert (''cache/'' @ key @ ''.txt'') [v]
                                                        (files (durable s))\<rparr>
                           else durable s) \<rparr>))"
  by (auto simp: storeData_def setRedis_total writeDisk_total bindF_def Let_def
           split: option.splits)

text \<open>The instance of the claim's last sentence: cache client absent, \<open>persistToDisk\<close> true,
  disk writable.\<close>

theorem storeData_tiers_witness:
  "storeData \<lparr>cache = \<lparr>enabled = False, online = False, db = []\<rparr>,
              durable = \<lparr>writable = True, files = []\<rparr>\<rparr>
     ''k'' (Raw ''v'') \<lparr>ttl = None, persistToDisk = Some True\<rparr>
   = Inr (True, \<lparr>cache = \<lparr>enabled = False, online = False, db = []\<rparr>,
                 durable = \<lparr>writable = True, files = [(''cache/k.txt'', [Raw ''v''])]\<rparr>\<rparr>)"
  using storeData_tiers [of "\<lparr>cache = \<lparr>enabled = False, online = False, db = []\<rparr>,
              durable = \<lparr>writable = True, files = []\<rparr>\<rparr>" "''k''" "Raw ''v''"
              "\<lparr>ttl = None, persistToDisk = Some True\<rparr>"]
  by (simp add: upsert_def)

section \<open>Game-state manager: \<open>createGame\<close>\<close>

lemma storeGameState_tiers:
  "storeGameState s gid st =
     (let cacheOk = (enabled (cache s) \<and> online (cache s)); diskOk = writable (durable s)
      in Inr (cacheOk \<or> diskOk,
              \<lparr> cache = (if cacheOk
                          then (cache s)\<lparr>db := upsert (game_key gid) (Str (JSON (DGame st))) (db (cache s))\<rparr>
                          else cache s),
                durable = (if diskOk
                           then (durable s)\<lparr>files := upsert (''cache/'' @ game_key gid @ ''.txt'')
                                                        [JSON (DGame st)] (files (durable s))\<rparr>
                           else durable s) \<rparr>))"
  by (auto simp: storeGameState_def storeJSON_def storeData_def setRedis_total writeDisk_total
        bindF_def try_catch_def JSON_stringify_def Let_def)

lemma logEvent_returns: "\<exists>ok s'. logEvent s isoNow lt ev = Inr (ok, s')"
  by (simp add: logEvent_def appendDisk_total bindF_def Let_def)

lemma logEvent_keeps:
  assumes "logEvent s isoNow lt ev = Inr (ok, s')" and "take 5 p \<noteq> ''logs/''"
  shows "cache s' = cache s \<and> map_of (files (durable s')) p = map_of (files (durable s)) p"
proof -
  have "p \<noteq> ''logs/'' @ lt @ ''/'' @ takeWhile (\<lambda>c. c \<noteq> CHR ''T'') isoNow @ ''.log''"
    using assms(2) by auto
  then show ?thesis
    using assms(1)
    by (auto simp: logEvent_def appendDisk_total bindF_def Let_def map_of_upsert split: if_splits)
qed

text \<open>
  Claim C10. For every \<open>gameId\<close>, \<open>createGame\<close> writes a fresh \<open>GameState\<close> (status
  pending, no players, \<open>data = initialData\<close>) to the slot of that \<open>gameId\<close> without
  looking at what the slot holds: whatever was stored there before, each tier whose write
  succeeds holds the fresh state afterwards (a tier whose write fails keeps what it had).
  It returns what \<open>storeGameState\<close> returns: true exactly when the write to the cache or
  the write to the disk succeeded.
\<close>

theorem createGame_overwrites:
  "let fresh = \<lparr> gameId = gid, typeG = ty, statusG = Pending, players = [],
                  startedAt = None, endedAt = None, dataG = initialData \<rparr>;
       cacheOk = (enabled (cache s) \<and> online (cache s));
       diskOk = writable (durable s)
   in \<exists>s1 s2.
        storeGameState s gid fresh = Inr (cacheOk \<or> diskOk, s1)
      \<and> createGame s isoNow gid ty initialData = Inr (cacheOk \<or> diskOk, s2)
      \<and> map_of (db (cache s2)) (game_key gid) =
          (if cacheOk then Some (Str (JSON (DGame fresh))) else map_of (db (cache s)) (game_key gid))
      \<and> map_of (files (durable s2)) (''cache/'' @ game_key gid @ ''.txt'') =
          (if diskOk then Some [JSON (DGame fresh)]
           else map_of (files (durable s)) (''cache/'' @ game_key gid @ ''.txt''))"
proof -
  define fresh where "fresh = \<lparr> gameId = gid, typeG = ty, statusG = Pending, players = [],
                  startedAt = None, endedAt = None, dataG = initialData \<rparr>"
  define cacheOk where "cacheOk = (enabled (cache s) \<and> online (cache s))"
  define diskOk where "diskOk = writable (durable s)"
  define s1 where "s1 = \<lparr> cache = (if cacheOk
                          then (cache s)\<lparr>db := upsert (game_key gid) (Str (JSON (DGame fresh))) (db (cache s))\<rparr>
                          else cache s),
                durable = (if diskOk
                           then (durable s)\<lparr>files := upsert (''cache/'' @ game_key gid @ ''.txt'')
                                                        [JSON (DGame fresh)] (files (durable s))\<rparr>
                           else durable s) \<rparr>"
  have st: "storeGameState s gid fresh = Inr (cacheOk \<or> diskOk, s1)"
    by (simp add: storeGameState_tiers cacheOk_def diskOk_def s1_def Let_def)
  have c1: "map_of (db (cache s1)) (game_key gid) =
          (if cacheOk then Some (Str (JSON (DGame fresh))) else map_of (db (cache s)) (game_key gid))"
    by (simp add: s1_def map_of_upsert)
  have d1: "map_of (files (durable s1)) (''cache/'' @ game_key gid @ ''.txt'') =
          (if diskOk then Some [JSON (DGame fresh)]
           else map_of (files (durable s)) (''cache/'' @ game_key gid @ ''.txt''))"
    by (simp add: s1_def map_of_upsert)
  obtain ok s2 where lg: "logEvent s1 isoNow ''game''
                       [(''action'', JString ''create''), (''gameId'', JString gid),
                        (''type'', JString ty)] = Inr (ok, s2)"
    using logEvent_returns by blast
  have notlog: "take 5 (''cache/'' @ game_key gid @ ''.txt'') \<noteq> ''logs/''" by simp
  note keep = logEvent_keeps[OF lg notlog]
  show ?thesis
  proof (cases "cacheOk \<or> diskOk")
    case True
    have "createGame s isoNow gid ty initialData = Inr (cacheOk \<or> diskOk, s2)"
      using True st lg by (simp add: createGame_def bindF_def Let_def fresh_def)
    then show ?thesis
      using st c1 d1 keep unfolding Let_def fresh_def[symmetric] cacheOk_def[symmetric] diskOk_def[symmetric]
      by (intro exI[of _ s1] exI[of _ s2]) simp
  next
    case False
    have "createGame s isoNow gid ty initialData = Inr (cacheOk \<or> diskOk, s1)"
      using False st by (simp add: createGame_def bindF_def Let_def fresh_def)
    then show ?thesis
      using st c1 d1 unfolding Let_def fresh_def[symmetric] cacheOk_def[symmetric] diskOk_def[symmetric]
      by (intro exI[of _ s1]) simp
  qed
qed

section \<open>Tournament store: faults\<close>

lemma mapF_JSON_parse:
  "mapF JSON_parse ts =
     (if \<forall>t \<in> set ts. \<exists>d. t = JSON d then Inr (map (\<lambda>t. case t of JSON d \<Rightarrow> d) ts)
      else Inl SyntaxError)"
  by (induction ts) (auto simp: JSON_parse_def bindF_def split: jtext.splits)

text \<open>
  Claim C4, as the source has it. The claim says that every Tournament Store operation
  re-raises a fault of the key-value client. The save and delete operations do: with a
  client at hand each of them is the client command itself, so whatever the command
  raises reaches the caller. The get and list operations do not: their \<open>catch\<close> logs and
  returns \<open>null\<close> or \<open>[]\<close>, so with a client at hand they never raise, and a rejected
  command reads as "not found". The only error every operation raises is the one of
  \<open>requireRedisClient\<close>, thrown before the \<open>try\<close> when there is no client.
\<close>

theorem store_fault_policy:
  "(\<not> enabled r \<longrightarrow>
      saveTournamentConfig r c = Inl ClientUnavailable \<and>
      getTournamentConfig r tid = Inl ClientUnavailable \<and>
      deleteTournamentConfig r tid = Inl ClientUnavailable \<and>
      saveUserRoll r tid uid rl = Inl ClientUnavailable \<and>
      getUserRoll r tid uid = Inl ClientUnavailable \<and>
      getAllUserRolls r tid = Inl ClientUnavailable \<and>
      deleteAllUserRolls r tid = Inl ClientUnavailable \<and>
      saveRoundData r tid n rd = Inl ClientUnavailable \<and>
      getRoundData r tid n = Inl ClientUnavailable \<and>
      saveTournamentStats r tid st = Inl ClientUnavailable \<and>
      getTournamentStats r tid = Inl ClientUnavailable \<and>
      listActiveTournaments r = Inl ClientUnavailable)
   \<and> (enabled r \<longrightarrow>
      saveTournamentConfig r c = client_set r (TOURNAMENT_PREFIX @ idT c) (JSON (DConfig c)) \<and>
      deleteTournamentConfig r tid = client_del r (TOURNAMENT_PREFIX @ tid) \<and>
      saveUserRoll r tid uid rl = client_hset r (TOURNAMENT_ROLLS_PREFIX @ tid) uid (JSON (DRoll rl)) \<and>
      deleteAllUserRolls r tid = client_del r (TOURNAMENT_ROLLS_PREFIX @ tid) \<and>
      saveRoundData r tid n rd = client_set r (round_key tid n) (JSON (DRound rd)) \<and>
      saveTournamentStats r tid st = client_set r (TOURNAMENT_STATS_PREFIX @ tid) (JSON (DStats st)) \<and>
      (\<forall>e. getTournamentConfig r tid \<noteq> Inl e) \<and>
      (\<forall>e. getUserRoll r tid uid \<noteq> Inl e) \<and>
      (\<forall>e. getAllUserRolls r tid \<noteq> Inl e) \<and>
      (\<forall>e. getRoundData r tid n \<noteq> Inl e) \<and>
      (\<forall>e. getTournamentStats r tid \<noteq> Inl e) \<and>
      (\<forall>e. listActiveTournaments r \<noteq> Inl e) \<and>
      (\<forall>e. client_get r (TOURNAMENT_PREFIX @ tid) = Inl e \<longrightarrow> getTournamentConfig r tid = Inr None) \<and>
      (\<forall>e. client_hget r (TOURNAMENT_ROLLS_PREFIX @ tid) uid = Inl e \<longrightarrow> getUserRoll r tid uid = Inr None) \<and>
      (\<forall>e. client_hgetall r (TOURNAMENT_ROLLS_PREFIX @ tid) = Inl e \<longrightarrow> getAllUserRolls r tid = Inr []) \<and>
      (\<forall>e. client_get r (round_key tid n) = Inl e \<longrightarrow> getRoundData r tid n = Inr None) \<and>
      (\<forall>e. client_get r (TOURNAMENT_STATS_PREFIX @ tid) = Inl e \<longrightarrow> getTournamentStats r tid = Inr None) \<and>
      (\<forall>e. client_keys r TOURNAMENT_PREFIX = Inl e \<longrightarrow> listActiveTournaments r = Inr []))"
proof (intro conjI impI)
  assume "\<not> enabled r"
  then show "saveTournamentConfig r c = Inl ClientUnavailable"
    "getTournamentConfig r tid = Inl ClientUnavailable"
    "deleteTournamentConfig r tid = Inl ClientUnavailable"
    "saveUserRoll r tid uid rl = Inl ClientUnavailable"
    "getUserRoll r tid uid = Inl ClientUnavailable"
    "getAllUserRolls r tid = Inl ClientUnavailable"
    "deleteAllUserRolls r tid = Inl ClientUnavailable"
    "saveRoundData r tid n rd = Inl ClientUnavailable"
    "getRoundData r tid n = Inl ClientUnavailable"
    "saveTournamentStats r tid st = Inl ClientUnavailable"
    "getTournamentStats r tid = Inl ClientUnavailable"
    "listActiveTournaments r = Inl ClientUnavailable"
    by (simp_all add: saveTournamentConfig_def getTournamentConfig_def deleteTournamentConfig_def
          saveUserRoll_def getUserRoll_def getAllUserRolls_def deleteAllUserRolls_def
          saveRoundData_def getRoundData_def saveTournamentStats_def getTournamentStats_def
          listActiveTournaments_def requireRedisClient_def bindF_def)
next
  assume en: "enabled r"
  show "saveTournamentConfig r c = client_set r (TOURNAMENT_PREFIX @ idT c) (JSON (DConfig c))"
    using en by (simp add: saveTournamentConfig_def requireRedisClient_def bindF_def try_catch_def
          JSON_stringify_def split: sum.splits)
  show "deleteTournamentConfig r tid = client_del r (TOURNAMENT_PREFIX @ tid)"
    using en by (simp add: deleteTournamentConfig_def requireRedisClient_def bindF_def try_catch_def
          split: sum.splits)
  show "saveUserRoll r tid uid rl = client_hset r (TOURNAMENT_ROLLS_PREFIX @ tid) uid (JSON (DRoll rl))"
    using en by (simp add: saveUserRoll_def requireRedisClient_def bindF_def try_catch_def
          JSON_stringify_def split: sum.splits)
  show "deleteAllUserRolls r tid = client_del r (TOURNAMENT_ROLLS_PREFIX @ tid)"
    using en by (simp add: deleteAllUserRolls_def requireRedisClient_def bindF_def try_catch_def
          split: sum.splits)
  show "saveRoundData r tid n rd = client_set r (round_key tid n) (JSON (DRound rd))"
    using en by (simp add: saveRoundData_def requireRedisClient_def bindF_def try_catch_def
          JSON_stringify_def split: sum.splits)
  show "saveTournamentStats r tid st = client_set r (TOURNAMENT_STATS_PREFIX @ tid) (JSON (DStats st))"
    using en by (simp add: saveTournamentStats_def requireRedisClient_def bindF_def try_catch_def
          JSON_stringify_def split: sum.splits)
  show "\<forall>e. getTournamentConfig r tid \<noteq> Inl e"
    using en by (simp add: getTournamentConfig_def requireRedisClient_def bindF_def try_catch_def
          split: sum.splits)
  show "\<forall>e. getUserRoll r tid uid \<noteq> Inl e"
    using en by (simp add: getUserRoll_def requireRedisClient_def bindF_def try_catch_def
          split: sum.splits)
  show "\<forall>e. getAllUserRolls r tid \<noteq> Inl e"
    using en by (simp add: getAllUserRolls_def requireRedisClient_def bindF_def try_catch_def
          split: sum.splits)
  show "\<forall>e. getRoundData r tid n \<noteq> Inl e"
    using en by (simp add: getRoundData_def requireRedisClient_def bindF_def try_catch_def
          split: sum.splits)
  show "\<forall>e. getTournamentStats r tid \<noteq> Inl e"
    using en by (simp add: getTournamentStats_def requireRedisClient_def bindF_def try_catch_def
          split: sum.splits)
  show "\<forall>e. listActiveTournaments r \<noteq> Inl e"
    using en by (simp add: listActiveTournaments_def requireRedisClient_def bindF_def try_catch_def
          split: sum.splits)
  show "\<forall>e. client_get r (TOURNAMENT_PREFIX @ tid) = Inl e \<longrightarrow> getTournamentConfig r tid = Inr None"
    using en by (simp add: getTournamentConfig_def requireRedisClient_def bindF_def try_catch_def)
  show "\<forall>e. client_hget r (TOURNAMENT_ROLLS_PREFIX @ tid) uid = Inl e \<longrightarrow> getUserRoll r tid uid = Inr None"
    using en by (simp add: getUserRoll_def requireRedisClient_def bindF_def try_catch_def)
  show "\<forall>e. client_hgetall r (TOURNAMENT_ROLLS_PREFIX @ tid) = Inl e \<longrightarrow> getAllUserRolls r tid = Inr []"
    using en by (simp add: getAllUserRolls_def requireRedisClient_def bindF_def try_catch_def)
  show "\<forall>e. client_get r (round_key tid n) = Inl e \<longrightarrow> getRoundData r tid n = Inr None"
    using en by (simp add: getRoundData_def requireRedisClient_def bindF_def try_catch_def)
  show "\<forall>e. client_get r (TOURNAMENT_STATS_PREFIX @ tid) = Inl e \<longrightarrow> getTournamentStats r tid = Inr None"
    using en by (simp add: getTournamentStats_def requireRedisClient_def bindF_def try_catch_def)
  show "\<forall>e. client_keys r TOURNAMENT_PREFIX = Inl e \<longrightarrow> listActiveTournaments r = Inr []"
    using en by (simp add: listActiveTournaments_def requireRedisClient_def bindF_def try_catch_def)
qed

theorem store_fault_policy_witness:
  "saveTournamentConfig \<lparr>enabled = True, online = False, db = []\<rparr>
      \<lparr> idT = ''t1'', name = ''Cup'', maxRoll = 100, rollLimit = 3, deadline = 5000,
        currentRound = 1, status = ACTIVE, messageId = None, channelId = ''ch'',
        createdAt = 1000, updatedAt = 1000 \<rparr> = Inl ConnectionError
   \<and> getTournamentConfig \<lparr>enabled = True, online = False, db = []\<rparr> ''t1'' = Inr None
   \<and> listActiveTournaments \<lparr>enabled = True, online = False, db = []\<rparr> = Inr []
   \<and> getTournamentConfig \<lparr>enabled = False, online = False, db = []\<rparr> ''t1'' = Inl ClientUnavailable"
  using store_fault_policy [of "\<lparr>enabled = True, online = False, db = []\<rparr>"
      "\<lparr> idT = ''t1'', name = ''Cup'', maxRoll = 100, rollLimit = 3, deadline = 5000,
        currentRound = 1, status = ACTIVE, messageId = None, channelId = ''ch'',
        createdAt = 1000, updatedAt = 1000 \<rparr>" "''t1''"]
    store_fault_policy [of "\<lparr>enabled = False, online = False, db = []\<rparr>" _ "''t1''"]
  by (simp add: client_set_def client_get_def client_keys_def)

text \<open>Claim C4 as stated fails: with a client whose commands are rejected,
  \<open>getTournamentConfig\<close> returns \<open>null\<close> and \<open>getAllUserRolls\<close> returns \<open>[]\<close>.\<close>

theorem store_fault_counterexample:
  "client_get \<lparr>enabled = True, online = False, db = []\<rparr> (TOURNAMENT_PREFIX @ ''t1'') = Inl ConnectionError
   \<and> getTournamentConfig \<lparr>enabled = True, online = False, db = []\<rparr> ''t1'' = Inr None
   \<and> client_hgetall \<lparr>enabled = True, online = False, db = []\<rparr> (TOURNAMENT_ROLLS_PREFIX @ ''t1'') = Inl ConnectionError
   \<and> getAllUserRolls \<lparr>enabled = True, online = False, db = []\<rparr> ''t1'' = Inr []"
  by (simp add: getTournamentConfig_def getAllUserRolls_def requireRedisClient_def bindF_def
        try_catch_def client_get_def client_hgetall_def)

section \<open>Tournament store: \<open>getAllUserRolls\<close>\<close>

text \<open>
  Claim C5, as the source has it. The loop that parses the entries of the roll map
  stands inside the one \<open>try\<close> of \<open>getAllUserRolls\<close>: when every entry parses, all of
  them are returned in scan order; when one entry fails to parse, the whole read is
  given up and the result is \<open>[]\<close>.
\<close>

theorem getAllUserRolls_aborts:
  assumes "enabled r" and "client_hgetall r (TOURNAMENT_ROLLS_PREFIX @ tid) = Inr entries"
  shows "getAllUserRolls r tid =
           (if \<forall>t \<in> set (map snd entries). \<exists>d. t = JSON d
            then Inr (map (\<lambda>t. case t of JSON d \<Rightarrow> d) (map snd entries))
            else Inr [])"
proof (cases "\<forall>t \<in> set (map snd entries). \<exists>d. t = JSON d")
  case True
  then have m: "mapF JSON_parse (map snd entries)
                  = Inr (map (\<lambda>t. case t of JSON d \<Rightarrow> d) (map snd entries))"
    unfolding mapF_JSON_parse by (rule if_P)
  have g: "getAllUserRolls r tid = Inr (map (\<lambda>t. case t of JSON d \<Rightarrow> d) (map snd entries))"
    using assms m
    by (simp add: getAllUserRolls_def requireRedisClient_def bindF_def try_catch_def)
  show ?thesis by (subst if_P[OF True]) (rule g)
next
  case False
  then have m: "mapF JSON_parse (map snd entries) = Inl SyntaxError"
    unfolding mapF_JSON_parse by (rule if_not_P)
  have g: "getAllUserRolls r tid = Inr []"
    using assms m
    by (simp add: getAllUserRolls_def requireRedisClient_def bindF_def try_catch_def)
  show ?thesis by (subst if_not_P[OF False]) (rule g)
qed

theorem getAllUserRolls_aborts_witness:
  "getAllUserRolls
     \<lparr>enabled = True, online = True,
      db = [(''tournament:rolls:t1'',
             Hash [(''u1'', JSON (DRoll \<lparr>userId = ''u1'', username = ''Ann'', roll = 45,
                                        timestamp = 1000, rollsUsed = 1\<rparr>)),
                   (''u2'', JSON (DRoll \<lparr>userId = ''u2'', username = ''Bob'', roll = 30,
                                        timestamp = 1001, rollsUsed = 2\<rparr>))])]\<rparr> ''t1''
   = Inr [DRoll \<lparr>userId = ''u1'', username = ''Ann'', roll = 45, timestamp = 1000, rollsUsed = 1\<rparr>,
          DRoll \<lparr>userId = ''u2'', username = ''Bob'', roll = 30, timestamp = 1001, rollsUsed = 2\<rparr>]"
  using getAllUserRolls_aborts [of "\<lparr>enabled = True, online = True,
      db = [(''tournament:rolls:t1'',
             Hash [(''u1'', JSON (DRoll \<lparr>userId = ''u1'', username = ''Ann'', roll = 45,
                                        timestamp = 1000, rollsUsed = 1\<rparr>)),
                   (''u2'', JSON (DRoll \<lparr>userId = ''u2'', username = ''Bob'', roll = 30,
                                        timestamp = 1001, rollsUsed = 2\<rparr>))])]\<rparr>" "''t1''"
       "[(''u1'', JSON (DRoll \<lparr>userId = ''u1'', username = ''Ann'', roll = 45,
                                        timestamp = 1000, rollsUsed = 1\<rparr>)),
                   (''u2'', JSON (DRoll \<lparr>userId = ''u2'', username = ''Bob'', roll = 30,
                                        timestamp = 1001, rollsUsed = 2\<rparr>))]"]
  by (simp add: client_hgetall_def TOURNAMENT_ROLLS_PREFIX_def)

text \<open>Claim C5 as stated fails: one entry that parses and one that does not give \<open>[]\<close>,
  not the entry that parses.\<close>

theorem getAllUserRolls_skip_counterexample:
  "getAllUserRolls
     \<lparr>enabled = True, online = True,
      db = [(''tournament:rolls:t1'',
             Hash [(''u1'', JSON (DRoll \<lparr>userId = ''u1'', username = ''Ann'', roll = 45,
                                        timestamp = 1000, rollsUsed = 1\<rparr>)),
                   (''u2'', Raw ''{broken'')])]\<rparr> ''t1''
   = Inr []"
  by (simp add: getAllUserRolls_def requireRedisClient_def bindF_def try_catch_def
        client_hgetall_def TOURNAMENT_ROLLS_PREFIX_def JSON_parse_def)

section \<open>Tournament store: \<open>listActiveTournaments\<close>\<close>

text \<open>
  Claim C7 says that the listing returns the stored configurations and that keys of the
  rolls, round and stats namespaces are neither listed nor able to fail the listing.
  The source scans \<open>tournament:*\<close>, which those namespaces share. Right after
  \<open>createTournament\<close> the listing holds the round record of round 1 beside the
  configuration; after the first roll the roll map's key makes \<open>GET\<close> reject with
  WRONGTYPE, and the listing is empty.
\<close>

theorem listActiveTournaments_namespace_defect:
  "createTournament \<lparr>enabled = True, online = True, db = []\<rparr> 1000 ''Cup'' 100 1 24 ''ch''
     = Inr (cupConfig, cupCreated)
   \<and> listActiveTournaments cupCreated = Inr [DConfig cupConfig, DRound cupRound1]
   \<and> processUserRoll cupCreated 2000 (1 / 2) ''tournament-1000'' ''u1'' ''Ann''
     = Inr (Outcome True ''Rolled 51! (1/1 rolls used)'' (Some annRoll), cupRolled)
   \<and> listActiveTournaments cupRolled = Inr []"
  by code_simp

section \<open>Tournament engine: \<open>endRound\<close>\<close>

text \<open>
  Claim C3. When \<open>endRound\<close> runs on an active tournament with \<open>n \<ge> 1\<close> recorded rolls
  and \<open>n - eliminateCount \<le> 1\<close>, it succeeds, the stored status becomes \<open>completed\<close>,
  the winner named in the message is the first entry of the descending sort of all rolls
  (an entry of maximal roll), and the key of round \<open>currentRound + 1\<close> is left as it was:
  no next round is created. With one participant at 50 percent \<open>eliminateCount\<close> is 0,
  so the tournament completes with that participant as winner.
\<close>

theorem endRound_completes:
  assumes en: "enabled r" and on: "online r" and cfg: "storedConfig r tid = Some config"
    and idc: "idT config = tid" and act: "status config = ACTIVE"
    and rolls: "getAllUserRolls r tid = Inr (map DRoll allRolls)" and ne: "allRolls \<noteq> []"
    and rem: "int (length allRolls) - eliminateCount_of (length allRolls) pct \<le> 1"
  shows "\<exists>elim r'.
           endRound r now tid pct =
             Inr (Outcome True
                    (''Tournament complete! Winner: '' @ username (hd (sortDescending allRolls)))
                    (Some elim), r')
         \<and> storedConfig r' tid = Some (config\<lparr>status := COMPLETED, updatedAt := now\<rparr>)
         \<and> hd (sortDescending allRolls) \<in> set allRolls
         \<and> (\<forall>x \<in> set allRolls. roll x \<le> roll (hd (sortDescending allRolls)))
         \<and> map_of (db r') (round_key tid (currentRound config + 1))
             = map_of (db r) (round_key tid (currentRound config + 1))
         \<and> eliminateCount_of 1 50 = 0"
proof -
  obtain st where cr: "closeRound r now config tid pct allRolls = closedRound r now config tid pct allRolls st"
    using closeRound_online[OF en on ne] by blast
  define sortedRolls where "sortedRolls = sortDescending allRolls"
  define e where "e = eliminateCount_of (length allRolls) pct"
  define elim where "elim = map userId (slice_from sortedRolls (int (length allRolls) - e))"
  define rd where "rd = \<lparr> roundNumber = currentRound config, startTime = st, endTime = Some now,
                participants = map userId sortedRolls, eliminated = elim,
                cutoffRoll = Some (or_number (map_option roll (at_index sortedRolls (max 0 (int (length allRolls) - e - 1)))) 0) \<rparr>"
  define r' where "r' = r\<lparr>db := upsert (TOURNAMENT_PREFIX @ idT config)
                               (Str (JSON (DConfig (config\<lparr>status := COMPLETED, updatedAt := now\<rparr>))))
                               (closedDb r config tid rd)\<rparr>"
  have run: "endRound r now tid pct =
             Inr (Outcome True (''Tournament complete! Winner: '' @ username (hd sortedRolls)) (Some elim), r')"
    using cr[unfolded closedRound_def] rem
    unfolding endRound_active[OF en on cfg act rolls ne]
    by (simp add: Let_def sortedRolls_def e_def elim_def rd_def r'_def)
  have c: "storedConfig r' tid = Some (config\<lparr>status := COMPLETED, updatedAt := now\<rparr>)"
    unfolding r'_def idc by (rule storedConfig_upsert_config)
  have nx: "map_of (db r') (round_key tid (currentRound config + 1))
             = map_of (db r) (round_key tid (currentRound config + 1))"
    unfolding r'_def using lookup_next_round[OF idc] by simp
  have z: "eliminateCount_of 1 50 = 0" by code_simp
  show ?thesis
    using run c nx z sortDescending_hd[OF ne] unfolding sortedRolls_def by blast
qed

theorem endRound_completes_witness:
  "endRound cupRolled 3000 ''tournament-1000'' 50 =
     Inr (Outcome True ''Tournament complete! Winner: Ann'' (Some []), cupCompleted)
   \<and> storedConfig cupCompleted ''tournament-1000''
       = Some (cupConfig\<lparr>status := COMPLETED, updatedAt := 3000\<rparr>)
   \<and> eliminateCount_of 1 50 = 0"
proof -
  have h1: "enabled cupRolled" and h2: "online cupRolled" by (simp_all add: cupRolled_def)
  have h3: "storedConfig cupRolled ''tournament-1000'' = Some cupConfig" by code_simp
  have h4: "idT cupConfig = ''tournament-1000''" and h5: "status cupConfig = ACTIVE"
    by (simp_all add: cupConfig_def)
  have h6: "getAllUserRolls cupRolled ''tournament-1000'' = Inr (map DRoll [annRoll])" by code_simp
  have h7: "[annRoll] \<noteq> []" by simp
  have h8: "int (length [annRoll]) - eliminateCount_of (length [annRoll]) 50 \<le> 1" by code_simp
  have ev: "endRound cupRolled 3000 ''tournament-1000'' 50 =
     Inr (Outcome True ''Tournament complete! Winner: Ann'' (Some []), cupCompleted)" by code_simp
  from endRound_completes[OF h1 h2 h3 h4 h5 h6 h7 h8, of 3000] ev show ?thesis by auto
qed

text \<open>
  Claim C1 says that \<open>endRound\<close> eliminates exactly \<open>floor(n * pct / 100)\<close> entries. The
  source computes \<open>Math.floor(length * (pct / 100))\<close> in doubles: the quotient \<open>pct / 100\<close> is
  rounded before it is multiplied. With 50 rolls at 58 percent the product is just below
  29, the floor is 28, and 28 entries are eliminated where the claim, and the count the
  expression is written to compute, give 29: the participant ranked 22nd from the top
  (roll 29) survives.
\<close>

theorem endRound_rounding_defect:
  "getAllUserRolls fiftyStore ''t50'' = Inr (map DRoll fiftyRolls)
   \<and> length fiftyRolls = 50
   \<and> \<lfloor>(50::rat) * 58 / 100\<rfloor> = 29
   \<and> eliminateCount_of 50 58 = 28
   \<and> map_sum id (\<lambda>(out, r'). (success out, message out, payload out))
         (endRound fiftyStore 5000 ''t50'' 58)
       = Inr (True, ''Round 1 ended. 28 players eliminated. Starting round 2!'',
              Some (map (\<lambda>i. ''u'' @ string_of_int i) (rev [1..28])))"
  by code_simp

text \<open>
  The other parts of claim C1 hold on the source for every percentage between 0 and
  100: \<open>endRound\<close> sorts the rolls descending by roll value (a sorted permutation),
  eliminates the last \<open>eliminateCount\<close> entries of the sorted list, records \<open>cutoffRoll\<close> as
  the roll at index \<open>max(0, n - eliminateCount - 1)\<close>, and every eliminated roll is at most
  every surviving roll. The count lies between 0 and \<open>n\<close>, and at the default 50, where
  the quotient is exact, it is \<open>n div 2\<close>: ten participants lose five.
\<close>

lemma endRound_elimination:
  assumes en: "enabled r" and on: "online r" and cfg: "storedConfig r tid = Some config"
    and idc: "idT config = tid" and act: "status config = ACTIVE"
    and rolls: "getAllUserRolls r tid = Inr (map DRoll allRolls)" and ne: "allRolls \<noteq> []"
    and len: "length allRolls < 2 ^ 32" and p0: "0 \<le> pct" and p100: "pct \<le> 100"
  shows "let sortedRolls = sortDescending allRolls;
             n = length allRolls;
             e = eliminateCount_of n pct;
             losers = drop (n - nat e) sortedRolls
         in mset sortedRolls = mset allRolls
          \<and> sorted_wrt (\<lambda>a b. roll b \<le> roll a) sortedRolls
          \<and> 0 \<le> e \<and> e \<le> int n \<and> (pct = DEFAULT_ELIMINATION_PERCENTAGE \<longrightarrow> e = int (n div 2))
          \<and> length losers = nat e
          \<and> (\<forall>a \<in> set losers. \<forall>b \<in> set (take (n - nat e) sortedRolls). roll a \<le> roll b)
          \<and> (\<exists>msg r' st.
                endRound r now tid pct = Inr (Outcome True msg (Some (map userId losers)), r')
              \<and> map_of (db r') (round_key tid (currentRound config)) =
                  Some (Str (JSON (DRound
                    \<lparr> roundNumber = currentRound config, startTime = st, endTime = Some now,
                      participants = map userId sortedRolls,
                      eliminated = map userId losers,
                      cutoffRoll = Some (roll (sortedRolls ! nat (max 0 (int n - e - 1)))) \<rparr>))))"
proof -
  define n where "n = length allRolls"
  define e where "e = eliminateCount_of n pct"
  define sortedRolls where "sortedRolls = sortDescending allRolls"
  have n53: "n < 2 ^ 53"
  proof -
    have "(2::nat) ^ 32 \<le> 2 ^ 53" by (rule power_increasing) simp_all
    with len show ?thesis unfolding n_def by linarith
  qed
  have eb: "0 \<le> e" "e \<le> int n"
    using eliminateCount_of_bounds[OF p0 p100 n53] by (simp_all add: e_def)
  have n1: "1 \<le> n" using ne by (cases allRolls) (simp_all add: n_def)
  have ls: "length sortedRolls = n" by (simp add: sortedRolls_def n_def)
  have sl: "slice_from sortedRolls (int n - e) = drop (n - nat e) sortedRolls"
    using slice_from_drop[of e sortedRolls] eb ls by simp
  have idx: "at_index sortedRolls (max 0 (int n - e - 1)) = Some (sortedRolls ! nat (max 0 (int n - e - 1)))"
    using eb n1 ls by (simp add: at_index_def)
  have ll: "length (drop (n - nat e) sortedRolls) = nat e"
    using eb ls by simp
  have d: "pct = DEFAULT_ELIMINATION_PERCENTAGE \<longrightarrow> e = int (n div 2)"
    using eliminateCount_of_default[OF n53] by (simp add: e_def DEFAULT_ELIMINATION_PERCENTAGE_def)
  obtain msg r' st where run: "endRound r now tid pct =
             Inr (Outcome True msg (Some (map userId (slice_from sortedRolls (int n - e)))), r')"
    and rd: "map_of (db r') (round_key tid (currentRound config)) =
             Some (Str (JSON (DRound
               \<lparr> roundNumber = currentRound config, startTime = st, endTime = Some now,
                 participants = map userId sortedRolls,
                 eliminated = map userId (slice_from sortedRolls (int n - e)),
                 cutoffRoll = Some (or_number (map_option roll (at_index sortedRolls
                      (max 0 (int n - e - 1)))) 0) \<rparr>)))"
    using endRound_round_data[OF en on cfg idc act rolls ne, of now pct]
    unfolding n_def e_def sortedRolls_def by blast
  have "\<exists>msg r' st.
                endRound r now tid pct = Inr (Outcome True msg (Some (map userId (drop (n - nat e) sortedRolls))), r')
              \<and> map_of (db r') (round_key tid (currentRound config)) =
                  Some (Str (JSON (DRound
                    \<lparr> roundNumber = currentRound config, startTime = st, endTime = Some now,
                      participants = map userId sortedRolls,
                      eliminated = map userId (drop (n - nat e) sortedRolls),
                      cutoffRoll = Some (roll (sortedRolls ! nat (max 0 (int n - e - 1)))) \<rparr>)))"
    using run rd unfolding sl idx by (intro exI[of _ msg] exI[of _ r'] exI[of _ st]) simp
  moreover have "\<forall>a \<in> set (drop (n - nat e) sortedRolls). \<forall>b \<in> set (take (n - nat e) sortedRolls). roll a \<le> roll b"
    unfolding sortedRolls_def using sortDescending_split by blast
  moreover have "mset sortedRolls = mset allRolls" "sorted_wrt (\<lambda>a b. roll b \<le> roll a) sortedRolls"
    unfolding sortedRolls_def by (simp_all add: sortDescending_sorted)
  ultimately show ?thesis
    using eb d ll
    unfolding Let_def n_def[symmetric] e_def[symmetric] sortedRolls_def[symmetric]
    by blast
qed

lemma endRound_elimination_ten:
  "eliminateCount_of 10 50 = 5
   \<and> (\<exists>msg r' st.
         endRound tenStore 5000 ''t10'' 50 =
           Inr (Outcome True msg (Some [''u7'', ''u1'', ''u9'', ''u4'', ''u5'']), r')
       \<and> map_of (db r') (round_key ''t10'' 1) =
           Some (Str (JSON (DRound
             \<lparr> roundNumber = 1, startTime = st, endTime = Some 5000,
               participants = [''u2'', ''u8'', ''u6'', ''u3'', ''u10'', ''u7'', ''u1'', ''u9'', ''u4'', ''u5''],
               eliminated = [''u7'', ''u1'', ''u9'', ''u4'', ''u5''],
               cutoffRoll = Some 60 \<rparr>))))"
proof -
  have h1: "enabled tenStore" and h2: "online tenStore" by (simp_all add: tenStore_def)
  have h3: "storedConfig tenStore ''t10'' = Some tenConfig" by code_simp
  have h4: "idT tenConfig = ''t10''" and h5: "status tenConfig = ACTIVE"
    by (simp_all add: tenConfig_def)
  have h6: "getAllUserRolls tenStore ''t10'' = Inr (map DRoll tenRolls)" by code_simp
  have h7: "tenRolls \<noteq> []" by code_simp
  have n: "length tenRolls = 10" by code_simp
  have h8: "length tenRolls < 2 ^ 32" unfolding n by simp
  have h9: "(0::rat) \<le> 50" and h10: "(50::rat) \<le> 100" by simp_all
  have e: "eliminateCount_of 10 50 = 5" by code_simp
  have cr: "currentRound tenConfig = 1" by (simp add: tenConfig_def)
  have u: "map userId (sortDescending tenRolls)
            = [''u2'', ''u8'', ''u6'', ''u3'', ''u10'', ''u7'', ''u1'', ''u9'', ''u4'', ''u5'']" by code_simp
  have c: "roll (sortDescending tenRolls ! 4) = 60" by code_simp
  note T = endRound_elimination[OF h1 h2 h3 h4 h5 h6 h7 h8 h9 h10, of 5000]
  have "\<exists>msg r' st.
         endRound tenStore 5000 ''t10'' 50 =
           Inr (Outcome True msg (Some (drop 5 (map userId (sortDescending tenRolls)))), r')
       \<and> map_of (db r') (round_key ''t10'' 1) =
           Some (Str (JSON (DRound
             \<lparr> roundNumber = 1, startTime = st, endTime = Some 5000,
               participants = map userId (sortDescending tenRolls),
               eliminated = drop 5 (map userId (sortDescending tenRolls)),
               cutoffRoll = Some (roll (sortDescending tenRolls ! 4)) \<rparr>)))"
    using T unfolding Let_def n e cr by (simp add: drop_map)
  then show ?thesis unfolding u c using e by simp
qed

section \<open>Tournament engine: \<open>processUserRoll\<close>\<close>

text \<open>
  Claim C2. For a stored tournament whose \<open>rollLimit\<close> is at least 1 (the data model's
  range is 1..10) and any sequence of \<open>processUserRoll\<close> calls on it: if no stored roll
  exceeds the limit before, none does after; the stored roll of every user never
  decreases. A call by a user whose \<open>rollsUsed\<close> has reached the limit returns the
  roll-limit failure and leaves the store as it was. A draw that does not exceed the
  stored best keeps the stored roll, adds one to \<open>rollsUsed\<close>, and the message names the
  losing draw.
\<close>

theorem processUserRoll_best_of:
  assumes "storedConfig r tid = Some config" and "1 \<le> rollLimit config"
  shows "((\<forall>w x. storedRoll r tid w = Some x \<longrightarrow> rollsUsed x \<le> rollLimit config)
            \<longrightarrow> (\<forall>w y. storedRoll (rollMany r tid calls) tid w = Some y
                        \<longrightarrow> rollsUsed y \<le> rollLimit config))
       \<and> (\<forall>w x. storedRoll r tid w = Some x
            \<longrightarrow> (\<exists>y. storedRoll (rollMany r tid calls) tid w = Some y \<and> roll x \<le> roll y))
       \<and> (\<forall>now u uid uname x.
             status config = ACTIVE \<and> now \<le> deadline config \<and> enabled r \<and> online r
             \<and> storedRoll r tid uid = Some x \<and> rollLimit config \<le> rollsUsed x
            \<longrightarrow> processUserRoll r now u tid uid uname =
                  Inr (Outcome False
                         (''You have used all '' @ string_of_int (rollLimit config) @ '' rolls'')
                         None, r))
       \<and> (\<forall>now u uid uname x.
             status config = ACTIVE \<and> now \<le> deadline config \<and> enabled r \<and> online r
             \<and> storedRoll r tid uid = Some x \<and> rollsUsed x < rollLimit config
             \<and> rollValue_of u (maxRoll config) \<le> roll x
            \<longrightarrow> (\<exists>r'. processUserRoll r now u tid uid uname =
                    Inr (Outcome True
                           (''Rolled '' @ string_of_int (rollValue_of u (maxRoll config))
                              @ '', but your previous roll of '' @ string_of_int (roll x)
                              @ '' was better. ('' @ string_of_int (rollsUsed x + 1) @ ''/''
                              @ string_of_int (rollLimit config) @ '' rolls used)'')
                           (Some x), r')
                  \<and> storedRoll r' tid uid = Some (x\<lparr>rollsUsed := rollsUsed x + 1\<rparr>)))"
proof (intro conjI allI impI)
  fix w y
  assume "\<forall>w x. storedRoll r tid w = Some x \<longrightarrow> rollsUsed x \<le> rollLimit config"
    and "storedRoll (rollMany r tid calls) tid w = Some y"
  then show "rollsUsed y \<le> rollLimit config"
    using rollMany_invariants[OF assms, of calls] by blast
next
  fix w x
  assume "storedRoll r tid w = Some x"
  then show "\<exists>y. storedRoll (rollMany r tid calls) tid w = Some y \<and> roll x \<le> roll y"
    using rollMany_invariants[OF assms, of calls] by blast
next
  fix now u uid uname x
  assume "status config = ACTIVE \<and> now \<le> deadline config \<and> enabled r \<and> online r
             \<and> storedRoll r tid uid = Some x \<and> rollLimit config \<le> rollsUsed x"
  then show "processUserRoll r now u tid uid uname =
                  Inr (Outcome False
                         (''You have used all '' @ string_of_int (rollLimit config) @ '' rolls'')
                         None, r)"
    using processUserRoll_at_limit[OF assms(1)] by blast
next
  fix now u uid uname x
  assume "status config = ACTIVE \<and> now \<le> deadline config \<and> enabled r \<and> online r
             \<and> storedRoll r tid uid = Some x \<and> rollsUsed x < rollLimit config
             \<and> rollValue_of u (maxRoll config) \<le> roll x"
  then show "\<exists>r'. processUserRoll r now u tid uid uname =
                    Inr (Outcome True
                           (''Rolled '' @ string_of_int (rollValue_of u (maxRoll config))
                              @ '', but your previous roll of '' @ string_of_int (roll x)
                              @ '' was better. ('' @ string_of_int (rollsUsed x + 1) @ ''/''
                              @ string_of_int (rollLimit config) @ '' rolls used)'')
                           (Some x), r')
                  \<and> storedRoll r' tid uid = Some (x\<lparr>rollsUsed := rollsUsed x + 1\<rparr>)"
    using processUserRoll_not_better[OF assms(1)] by blast
qed

text \<open>The scenario of the specification: limit 3, draws 45, 30 and 80, then a fourth
  attempt.\<close>

theorem processUserRoll_best_of_witness:
  "storedRoll (rollMany bestOfStart ''t1'' bestOfCalls) ''t1'' ''u1''
     = Some \<lparr> userId = ''u1'', username = ''Ann'', roll = 80, timestamp = 2002, rollsUsed = 3 \<rparr>
   \<and> (3::int) \<le> rollLimit bestOfConfig
   \<and> processUserRoll (rollMany bestOfStart ''t1'' bestOfCalls) 2003 (63 / 64) ''t1'' ''u1'' ''Ann''
     = Inr (Outcome False ''You have used all 3 rolls'' None, rollMany bestOfStart ''t1'' bestOfCalls)
   \<and> processUserRoll bestOfFirst 2001 (19 / 64) ''t1'' ''u1'' ''Ann''
     = Inr (Outcome True ''Rolled 30, but your previous roll of 45 was better. (2/3 rolls used)''
              (Some \<lparr> userId = ''u1'', username = ''Ann'', roll = 45, timestamp = 2000, rollsUsed = 1 \<rparr>),
            bestOfSecond)"
proof -
  have h1: "storedConfig bestOfStart ''t1'' = Some bestOfConfig" by code_simp
  have h2: "1 \<le> rollLimit bestOfConfig" by (simp add: bestOfConfig_def)
  have h3: "\<forall>w x. storedRoll bestOfStart ''t1'' w = Some x \<longrightarrow> rollsUsed x \<le> rollLimit bestOfConfig"
    by (simp add: storedRoll_def bestOfStart_def TOURNAMENT_ROLLS_PREFIX_def)
  have ev: "storedRoll (rollMany bestOfStart ''t1'' bestOfCalls) ''t1'' ''u1''
     = Some \<lparr> userId = ''u1'', username = ''Ann'', roll = 80, timestamp = 2002, rollsUsed = 3 \<rparr>"
    by code_simp
  from processUserRoll_best_of[OF h1 h2, of bestOfCalls] h3 ev
  have "rollsUsed \<lparr> userId = ''u1'', username = ''Ann'', roll = 80, timestamp = 2002, rollsUsed = 3 \<rparr>
          \<le> rollLimit bestOfConfig" by blast
  then have lim: "(3::int) \<le> rollLimit bestOfConfig" by simp
  have at: "processUserRoll (rollMany bestOfStart ''t1'' bestOfCalls) 2003 (63 / 64) ''t1'' ''u1'' ''Ann''
     = Inr (Outcome False ''You have used all 3 rolls'' None, rollMany bestOfStart ''t1'' bestOfCalls)"
    by code_simp
  have nb: "processUserRoll bestOfFirst 2001 (19 / 64) ''t1'' ''u1'' ''Ann''
     = Inr (Outcome True ''Rolled 30, but your previous roll of 45 was better. (2/3 rolls used)''
              (Some \<lparr> userId = ''u1'', username = ''Ann'', roll = 45, timestamp = 2000, rollsUsed = 1 \<rparr>),
            bestOfSecond)"
    by code_simp
  show ?thesis using ev lim at nb by simp
qed

text \<open>
  Claim C9 says that after every successful call the stored timestamp is the time of
  that call. The branch for a draw that does not improve writes
  \<open>{ ...existingRoll, rollsUsed }\<close>: the timestamp of the earlier, better roll stays.
  First roll at time 2000 (45), second roll at time 2001 (30): the stored timestamp is
  still 2000.
\<close>

theorem processUserRoll_timestamp_defect:
  "processUserRoll bestOfStart 2000 (57 / 128) ''t1'' ''u1'' ''Ann''
     = Inr (Outcome True ''Rolled 45! (1/3 rolls used)''
              (Some \<lparr> userId = ''u1'', username = ''Ann'', roll = 45, timestamp = 2000, rollsUsed = 1 \<rparr>),
            bestOfFirst)
   \<and> processUserRoll bestOfFirst 2001 (19 / 64) ''t1'' ''u1'' ''Ann''
     = Inr (Outcome True ''Rolled 30, but your previous roll of 45 was better. (2/3 rolls used)''
              (Some \<lparr> userId = ''u1'', username = ''Ann'', roll = 45, timestamp = 2000, rollsUsed = 1 \<rparr>),
            bestOfSecond)
   \<and> storedRoll bestOfSecond ''t1'' ''u1''
     = Some \<lparr> userId = ''u1'', username = ''Ann'', roll = 45, timestamp = 2000, rollsUsed = 2 \<rparr>"
  by code_simp

section \<open>Tournament engine: status transitions\<close>

text \<open>
  Claim C6, as the source has it. For a stored tournament (stored under its own id):
  \<open>processUserRoll\<close> never changes the configuration, and on a tournament that is not
  active it fails and leaves the store as it was; \<open>endRound\<close> on a tournament that is not
  active fails and leaves the store as it was, and on an active one it leaves the status
  active or makes it completed. \<open>cancelTournament\<close> returns false and changes nothing when
  the tournament is not found; when it is found it sets the status to cancelled and
  returns true, whatever the status was: it has no guard, so a completed or cancelled
  tournament is written again.
\<close>

theorem status_transitions:
  assumes cfg: "storedConfig r tid = Some config" and idc: "idT config = tid"
  shows "(\<forall>now u uid uname out r'.
            processUserRoll r now u tid uid uname = Inr (out, r')
            \<longrightarrow> storedConfig r' tid = Some config
                \<and> (status config \<noteq> ACTIVE \<longrightarrow> r' = r \<and> \<not> success out))
       \<and> (\<forall>now pct out r'.
            endRound r now tid pct = Inr (out, r')
            \<longrightarrow> (status config \<noteq> ACTIVE \<longrightarrow> r' = r \<and> \<not> success out)
                \<and> (\<exists>c'. storedConfig r' tid = Some c'
                       \<and> (status c' = status config
                          \<or> status config = ACTIVE \<and> status c' = COMPLETED)))
       \<and> (\<forall>now. enabled r \<and> online r
            \<longrightarrow> (\<exists>r'. cancelTournament r now tid = Inr (True, r')
                     \<and> storedConfig r' tid = Some (config\<lparr>status := CANCELLED, updatedAt := now\<rparr>)))
       \<and> (\<forall>now tid'. getTournamentConfig r tid' = Inr None
            \<longrightarrow> cancelTournament r now tid' = Inr (False, r))"
proof (intro conjI allI impI)
  fix now u uid uname out r'
  assume run: "processUserRoll r now u tid uid uname = Inr (out, r')"
  show "storedConfig r' tid = Some config"
    using processUserRoll_config[OF run, of tid] cfg by simp
  assume "status config \<noteq> ACTIVE"
  then show "r' = r" "\<not> success out"
    using processUserRoll_inactive[OF cfg _ run] by simp_all
next
  fix now pct out r'
  assume run: "endRound r now tid pct = Inr (out, r')"
  show "\<exists>c'. storedConfig r' tid = Some c'
            \<and> (status c' = status config \<or> status config = ACTIVE \<and> status c' = COMPLETED)"
    using endRound_status[OF cfg idc run] .
  assume "status config \<noteq> ACTIVE"
  then show "r' = r" "\<not> success out"
    using endRound_inactive[OF cfg _ run] by simp_all
next
  fix now
  assume "enabled r \<and> online r"
  then show "\<exists>r'. cancelTournament r now tid = Inr (True, r')
                     \<and> storedConfig r' tid = Some (config\<lparr>status := CANCELLED, updatedAt := now\<rparr>)"
    using cancelTournament_found[OF cfg idc] by simp
next
  fix now tid'
  assume "getTournamentConfig r tid' = Inr None"
  then show "cancelTournament r now tid' = Inr (False, r)"
    by (rule cancelTournament_missing)
qed

theorem status_transitions_witness:
  "processUserRoll cupCompleted 9000 (1 / 2) ''tournament-1000'' ''u1'' ''Ann''
     = Inr (Outcome False ''Tournament is not active'' None, cupCompleted)
   \<and> endRound cupCompleted 9000 ''tournament-1000'' 50
     = Inr (Outcome False ''Tournament is not active'' None, cupCompleted)
   \<and> storedConfig cupCompleted ''tournament-1000''
     = Some (cupConfig\<lparr>status := COMPLETED, updatedAt := 3000\<rparr>)
   \<and> cancelTournament cupCompleted 9000 ''missing'' = Inr (False, cupCompleted)
   \<and> (\<exists>r'. cancelTournament cupCompleted 9000 ''tournament-1000'' = Inr (True, r')
         \<and> storedConfig r' ''tournament-1000''
             = Some (cupConfig\<lparr>status := CANCELLED, updatedAt := 9000\<rparr>))"
proof -
  have h1: "storedConfig cupCompleted ''tournament-1000''
              = Some (cupConfig\<lparr>status := COMPLETED, updatedAt := 3000\<rparr>)" by code_simp
  have h2: "idT (cupConfig\<lparr>status := COMPLETED, updatedAt := 3000\<rparr>) = ''tournament-1000''"
    by (simp add: cupConfig_def)
  have e1: "processUserRoll cupCompleted 9000 (1 / 2) ''tournament-1000'' ''u1'' ''Ann''
     = Inr (Outcome False ''Tournament is not active'' None, cupCompleted)" by code_simp
  have e2: "endRound cupCompleted 9000 ''tournament-1000'' 50
     = Inr (Outcome False ''Tournament is not active'' None, cupCompleted)" by code_simp
  have e3: "getTournamentConfig cupCompleted ''missing'' = Inr None" by code_simp
  have e4: "enabled cupCompleted \<and> online cupCompleted" by (simp add: cupCompleted_def)
  note T = status_transitions[OF h1 h2]
  from T e3 have c1: "cancelTournament cupCompleted 9000 ''missing'' = Inr (False, cupCompleted)"
    by blast
  from T e4 have c2: "\<exists>r'. cancelTournament cupCompleted 9000 ''tournament-1000'' = Inr (True, r')
         \<and> storedConfig r' ''tournament-1000''
             = Some (cupConfig\<lparr>status := COMPLETED, updatedAt := 3000\<rparr>\<lparr>status := CANCELLED, updatedAt := 9000\<rparr>)"
    by blast
  show ?thesis using e1 e2 h1 c1 c2 by simp
qed

text \<open>Claim C6 as stated fails: \<open>cancelTournament\<close> on a completed tournament returns
  true and the stored status is cancelled afterwards.\<close>

theorem cancel_completed_counterexample:
  "storedConfig cupCompleted ''tournament-1000''
     = Some (cupConfig\<lparr>status := COMPLETED, updatedAt := 3000\<rparr>)
   \<and> cancelTournament cupCompleted 9000 ''tournament-1000'' = Inr (True, cupCancelled)
   \<and> storedConfig cupCancelled ''tournament-1000''
     = Some (cupConfig\<lparr>status := CANCELLED, updatedAt := 9000\<rparr>)"
  by code_simp

end
